theory Spec2Isabelle
  imports Main "HOL-Library.AList"
begin

section \<open>JavaScript strings\<close>

text \<open>
  A JavaScript string is modelled as a \<^typ>\<open>string\<close>: a list of code units, here the
  code units below 256.  In that range the white space of \<^verbatim>\<open>String.prototype.trim\<close> and
  of the regular expression class \<^verbatim>\<open>\s\<close> is TAB, LF, VT, FF, CR, SPACE and NBSP, and the
  word characters of \<^verbatim>\<open>\w\<close> are the ASCII letters, the digits and the underscore.
\<close>

definition js_space :: "char \<Rightarrow> bool" where
  "js_space c = (c \<in> set [CHR 0x09, CHR 0x0A, CHR 0x0B, CHR 0x0C, CHR 0x0D, CHR 0x20, CHR 0xA0])"

definition js_word :: "char \<Rightarrow> bool" where
  "js_word c =
     (let n = (of_char c :: nat)
      in (65 \<le> n \<and> n \<le> 90) \<or> (97 \<le> n \<and> n \<le> 122) \<or> (48 \<le> n \<and> n \<le> 57) \<or> n = 95)"

definition js_line_terminator :: "char \<Rightarrow> bool" where
  "js_line_terminator c = (c = CHR 0x0A \<or> c = CHR 0x0D)"

text \<open>\<^verbatim>\<open>s.trim()\<close>\<close>

definition trim :: "string \<Rightarrow> string" where
  "trim s = rev (dropWhile js_space (rev (dropWhile js_space s)))"

text \<open>\<^verbatim>\<open>s.split(sep)\<close> for a separator of one character: the empty string splits into one
  empty piece.\<close>

fun split :: "char \<Rightarrow> string \<Rightarrow> string list" where
  "split sep [] = [[]]"
| "split sep (c # cs) =
     (if c = sep then [] # split sep cs
      else (case split sep cs of [] \<Rightarrow> [[c]] | x # xs \<Rightarrow> (c # x) # xs))"

text \<open>\<^verbatim>\<open>xs.join(sep)\<close>\<close>

fun join :: "string \<Rightarrow> string list \<Rightarrow> string" where
  "join sep [] = []"
| "join sep [x] = x"
| "join sep (x # y # ys) = x @ sep @ join sep (y # ys)"

text \<open>\<^verbatim>\<open>s.substring(0, n)\<close> for \<open>n \<ge> 0\<close>: the end is clamped to the length.\<close>

definition substring0 :: "string \<Rightarrow> nat \<Rightarrow> string" where
  "substring0 s n = take n s"

section \<open>Regular expressions\<close>

text \<open>
  The patterns of the source are JavaScript regular expressions without flags.  They are
  modelled by their syntax tree and a backtracking matcher that lists the results of a
  pattern in the order in which the engine tries them, so that the first result is the
  engine's match.  Quantifiers are greedy; an iteration of \<^verbatim>\<open>*\<close> or \<^verbatim>\<open>?\<close> that consumes
  nothing is rejected, and the groups inside a starred pattern are reset when an iteration
  begins, as the language standard has it.
\<close>

datatype atom = Lit char | WordCh | SpaceCh | AnyCh | OneOf "char list" | NoneOf "char list"

datatype regex =
    Eps
  | Atom atom
  | Str string
  | Bol
  | WordB
  | Seq regex regex
  | Alt regex regex
  | Star regex
  | Opt regex
  | Group nat regex

fun atom_ok :: "atom \<Rightarrow> char \<Rightarrow> bool" where
  "atom_ok (Lit x) c = (c = x)"
| "atom_ok WordCh c = js_word c"
| "atom_ok SpaceCh c = js_space c"
| "atom_ok AnyCh c = (\<not> js_line_terminator c)"
| "atom_ok (OneOf cs) c = (c \<in> set cs)"
| "atom_ok (NoneOf cs) c = (c \<notin> set cs)"

fun groups :: "regex \<Rightarrow> nat list" where
  "groups (Seq r1 r2) = groups r1 @ groups r2"
| "groups (Alt r1 r2) = groups r1 @ groups r2"
| "groups (Star r) = groups r"
| "groups (Opt r) = groups r"
| "groups (Group i r) = i # groups r"
| "groups _ = []"

type_synonym captures = "string option list"

text \<open>A matcher state: the input already consumed (reversed), the input left, the captures.\<close>

type_synonym mstate = "string \<times> string \<times> captures"

definition clear :: "nat list \<Rightarrow> captures \<Rightarrow> captures" where
  "clear is c = fold (\<lambda>i c. c[i := None]) is c"

definition word_at :: "string \<Rightarrow> bool" where
  "word_at s = (case s of [] \<Rightarrow> False | c # _ \<Rightarrow> js_word c)"

definition left :: "mstate \<Rightarrow> nat" where
  "left st = length (fst (snd st))"

function matches :: "regex \<Rightarrow> mstate \<Rightarrow> mstate list" where
  "matches Eps st = [st]"
| "matches (Atom a) (b, s, c) =
     (case s of [] \<Rightarrow> [] | x # xs \<Rightarrow> if atom_ok a x then [(x # b, xs, c)] else [])"
| "matches (Str w) (b, s, c) =
     (if take (length w) s = w then [(rev w @ b, drop (length w) s, c)] else [])"
| "matches Bol (b, s, c) = (if b = [] then [(b, s, c)] else [])"
| "matches WordB (b, s, c) = (if word_at b \<noteq> word_at s then [(b, s, c)] else [])"
| "matches (Seq r1 r2) st = concat (map (matches r2) (matches r1 st))"
| "matches (Alt r1 r2) st = matches r1 st @ matches r2 st"
| "matches (Opt r) st = filter (\<lambda>st'. left st' < left st) (matches r st) @ [st]"
| "matches (Star r) (b, s, c) =
     concat (map (\<lambda>st'. if left st' < length s then matches (Star r) st' else [])
                 (matches r (b, s, clear (groups r) c)))
     @ [(b, s, c)]"
| "matches (Group i r) (b, s, c) =
     map (\<lambda>(b', s', c'). (b', s', c'[i := Some (take (length s - length s') s)]))
         (matches r (b, s, c))"
  by pat_completeness auto
termination
  by (relation "measures [\<lambda>(r, st). size r, \<lambda>(r, st). left st]") (auto simp: left_def)


definition ngroups :: "regex \<Rightarrow> nat" where
  "ngroups r = fold max (groups r) 0"

text \<open>One attempt of the engine at a start position: the first result of the matcher, with
  the matched text as element 0 of the match array.\<close>

definition match_at :: "regex \<Rightarrow> string \<Rightarrow> string \<Rightarrow> captures option" where
  "match_at r b s =
     (case matches r (b, s, replicate (Suc (ngroups r)) None) of
        [] \<Rightarrow> None
      | (b', s', c') # _ \<Rightarrow> Some (c'[0 := Some (take (length s - length s') s)]))"

fun exec_from :: "regex \<Rightarrow> string \<Rightarrow> string \<Rightarrow> captures option" where
  "exec_from r b [] = match_at r b []"
| "exec_from r b (x # xs) =
     (case match_at r b (x # xs) of
        Some m \<Rightarrow> Some m
      | None \<Rightarrow> exec_from r (x # b) xs)"

text \<open>\<^verbatim>\<open>pattern.exec(s)\<close>: the start positions are tried from the left; \<open>None\<close> is \<^verbatim>\<open>null\<close>.\<close>

definition exec :: "regex \<Rightarrow> string \<Rightarrow> captures option" where
  "exec r s = exec_from r [] s"

text \<open>\<^verbatim>\<open>pattern.test(s)\<close>\<close>

definition test :: "regex \<Rightarrow> string \<Rightarrow> bool" where
  "test r s = (exec r s \<noteq> None)"

text \<open>\<^verbatim>\<open>match[i]\<close>: \<open>None\<close> is \<^verbatim>\<open>undefined\<close>, also beyond the last group.\<close>

definition grp :: "captures \<Rightarrow> nat \<Rightarrow> string option" where
  "grp m i = (if i < length m then m ! i else None)"

subsection \<open>Writing patterns\<close>

definition Plus :: "regex \<Rightarrow> regex" where
  "Plus r = Seq r (Star r)"

fun seqs :: "regex list \<Rightarrow> regex" where
  "seqs [] = Eps"
| "seqs [r] = r"
| "seqs (r # rs) = Seq r (seqs rs)"

fun alts :: "regex list \<Rightarrow> regex" where
  "alts [] = Eps"
| "alts [r] = r"
| "alts (r # rs) = Alt r (alts rs)"

abbreviation sp :: regex where "sp \<equiv> Atom SpaceCh"
abbreviation wd :: regex where "wd \<equiv> Atom WordCh"
abbreviation quote :: "char list" where "quote \<equiv> [CHR 0x27, CHR 0x22]"

text \<open>\<^verbatim>\<open>(?:async\s+)?\<close>\<close>

definition async_prefix :: regex where
  "async_prefix = Opt (seqs [Str ''async'', Plus sp])"

section \<open>The language configurations (contextAnalyzer.ts, initializeLanguageConfigs)\<close>

record LanguageConfig =
  functionPattern :: regex
  classPattern :: regex
  importPattern :: regex
  variablePattern :: regex
  commentPattern :: regex
  stringPattern :: regex
  conditionalPattern :: regex
  loopPattern :: regex
  returnPattern :: regex
  tryCatchPattern :: regex
  propertyPattern :: "regex option"
  asyncPattern :: "regex option"

definition js_functionPattern :: regex where
  "js_functionPattern =
     seqs [Bol, async_prefix,
       alts [
         seqs [Str ''function'', Plus sp, Group 1 (Plus wd)],
         seqs [Str ''const'', Plus sp, Group 2 (Plus wd), Star sp, Str ''='', Star sp,
               async_prefix, Str ''('', Star (Atom (NoneOf '')'')), Str '')'', Star sp,
               Str ''=>''],
         seqs [alts [Str ''const'', Str ''let'', Str ''var''], Plus sp, Group 3 (Plus wd),
               Star sp, Str ''='', Star sp, async_prefix, Str ''function'']]]"

text \<open>\<^verbatim>\<open>(?:\s+extends\s+(\w+))?(?:\s+implements\s+([^{]+))?\s*{\<close>\<close>

definition extends_implements :: regex where
  "extends_implements =
     seqs [Opt (seqs [Plus sp, Str ''extends'', Plus sp, Group 2 (Plus wd)]),
           Opt (seqs [Plus sp, Str ''implements'', Plus sp,
                      Group 3 (Plus (Atom (NoneOf ''{'')))]),
           Star sp, Str ''{'']"

definition javascript_config :: LanguageConfig where
  "javascript_config = \<lparr>
     functionPattern = js_functionPattern,
     classPattern = seqs [Bol, Str ''class'', Plus sp, Group 1 (Plus wd), extends_implements],
     importPattern =
       seqs [Bol,
         alts [
           seqs [Str ''import'', Plus sp, Star (Atom AnyCh), Str ''from'', Plus sp,
                 Atom (OneOf quote), Plus (Atom (NoneOf quote)), Atom (OneOf quote)],
           seqs [Str ''const'', Plus sp, Star (Atom AnyCh), Str ''='', Star sp,
                 Str ''require('', Atom (OneOf quote), Plus (Atom (NoneOf quote)),
                 Atom (OneOf quote), Str '')'']]],
     variablePattern =
       seqs [Bol, alts [Str ''const'', Str ''let'', Str ''var''], Plus sp, Group 1 (Plus wd),
             Opt (seqs [Str '':'', Star sp, Group 2 (Plus wd)]),
             Opt (seqs [Star sp, Str ''='', Star sp, Group 3 (Plus (Atom AnyCh))])],
     commentPattern = seqs [Bol, Str ''//''],
     stringPattern = seqs [Bol, Atom (OneOf quote)],
     conditionalPattern =
       seqs [Bol, alts [Str ''if'', seqs [Str ''else'', Plus sp, Str ''if''], Str ''switch''],
             Star sp, Str ''(''],
     loopPattern = seqs [Bol, alts [Str ''for'', Str ''while'', Str ''do''], Star sp, Str ''(''],
     returnPattern = seqs [Bol, Str ''return'', WordB],
     tryCatchPattern = seqs [Bol, alts [Str ''try'', Str ''catch'', Str ''finally''], WordB],
     propertyPattern =
       Some (seqs [Bol, alts [Str ''this.'',
                              seqs [Str ''const'', Plus sp, Group 1 (Plus wd), Star sp,
                                    Str ''='']]]),
     asyncPattern = Some (seqs [WordB, Str ''async'', WordB]) \<rparr>"

definition python_functionPattern :: regex where
  "python_functionPattern =
     seqs [Bol, async_prefix, Str ''def'', Plus sp, Group 1 (Plus wd), Star sp, Str ''('',
           Group 2 (Star (Atom (NoneOf '')''))), Str '')'',
           Opt (seqs [Star sp, Str ''->'', Star sp, Group 3 (Plus wd)]), Str '':'']"

definition python_config :: LanguageConfig where
  "python_config = \<lparr>
     functionPattern = python_functionPattern,
     classPattern =
       seqs [Bol, Str ''class'', Plus sp, Group 1 (Plus wd),
             Opt (seqs [Star sp, Str ''('', Star sp, Group 2 (Plus (Atom (NoneOf '')''))),
                        Star sp, Str '')'']),
             Str '':''],
     importPattern =
       seqs [Bol, alts [seqs [Str ''import'', Plus sp, Plus wd],
                        seqs [Str ''from'', Plus sp, Plus wd, Plus sp, Str ''import'']]],
     variablePattern =
       seqs [Bol, Group 1 (Plus wd), Star sp, Str ''='', Star sp, Group 2 (Plus (Atom AnyCh))],
     commentPattern = seqs [Bol, Str ''#''],
     stringPattern = seqs [Bol, Atom (OneOf quote)],
     conditionalPattern = seqs [Bol, alts [Str ''if'', Str ''elif'', Str ''else''], Plus sp],
     loopPattern = seqs [Bol, alts [Str ''for'', Str ''while''], Plus sp],
     returnPattern = seqs [Bol, Str ''return'', WordB],
     tryCatchPattern = seqs [Bol, alts [Str ''try'', Str ''except'', Str ''finally''], WordB],
     propertyPattern = None,
     asyncPattern = Some (seqs [WordB, Str ''async'', WordB]) \<rparr>"

text \<open>\<^verbatim>\<open>(?:\s*=\s*(.+))?\<close>\<close>

definition initialiser :: regex where
  "initialiser = Opt (seqs [Star sp, Str ''='', Star sp, Group 2 (Plus (Atom AnyCh))])"

definition c_style_comment :: regex where
  "c_style_comment = seqs [Bol, alts [Str ''//'', Str ''/*'']]"

definition java_config :: LanguageConfig where
  "java_config = \<lparr>
     functionPattern =
       seqs [Bol, Opt (alts [Str ''public'', Str ''private'', Str ''protected'']), Star sp,
             Opt (Str ''static''), Star sp, Star (seqs [Plus wd, Plus sp]), Group 1 (Plus wd),
             Star sp, Str ''('', Group 2 (Star (Atom (NoneOf '')''))), Str '')'', Star sp,
             Opt (seqs [Str ''throws'', Plus sp, Plus (Atom (NoneOf ''{''))]), Star sp,
             Atom (OneOf ''{;'')],
     classPattern =
       seqs [Bol, Opt (seqs [Str ''public'', Plus sp]), Str ''class'', Plus sp,
             Group 1 (Plus wd), extends_implements],
     importPattern =
       seqs [Bol, Str ''import'', Plus sp, Group 1 (Plus (Atom (NoneOf '';''))), Str '';''],
     variablePattern =
       seqs [Bol, Opt (seqs [Str ''final'', Plus sp]), Plus (seqs [Plus wd, Plus sp]),
             Group 1 (Plus wd), initialiser],
     commentPattern = c_style_comment,
     stringPattern = seqs [Bol, Str [CHR 0x22]],
     conditionalPattern =
       seqs [Bol, alts [Str ''if'', seqs [Str ''else'', Plus sp, Str ''if''], Str ''switch''],
             Star sp, Str ''(''],
     loopPattern = seqs [Bol, alts [Str ''for'', Str ''while''], Star sp, Str ''(''],
     returnPattern = seqs [Bol, Str ''return'', WordB],
     tryCatchPattern = seqs [Bol, alts [Str ''try'', Str ''catch'', Str ''finally''], WordB],
     propertyPattern = None,
     asyncPattern = None \<rparr>"

definition cpp_config :: LanguageConfig where
  "cpp_config = \<lparr>
     functionPattern =
       seqs [Bol, Star (seqs [Plus wd, Plus sp]), Group 1 (Plus wd), Star sp, Str ''('',
             Group 2 (Star (Atom (NoneOf '')''))), Str '')'',
             Opt (seqs [Star sp, Str ''const'']), Star sp, alts [Str ''{'', Str '';'']],
     classPattern =
       seqs [Bol, Str ''class'', Plus sp, Group 1 (Plus wd),
             Opt (seqs [Star sp, Str '':'', Star sp,
                        alts [Str ''public'', Str ''private'', Str ''protected''], Plus sp,
                        Group 2 (Plus wd)]),
             Star sp, Str ''{''],
     importPattern =
       seqs [Bol, Str ''#include'', Star sp, Atom (OneOf [CHR ''<'', CHR 0x22]),
             Plus (Atom (NoneOf [CHR ''>'', CHR 0x22])), Atom (OneOf [CHR ''>'', CHR 0x22])],
     variablePattern =
       seqs [Bol, Plus (seqs [Plus wd, Plus sp]), Group 1 (Plus wd), initialiser],
     commentPattern = c_style_comment,
     stringPattern = seqs [Bol, Str [CHR 0x22]],
     conditionalPattern =
       seqs [Bol, alts [Str ''if'', seqs [Str ''else'', Plus sp, Str ''if''], Str ''switch''],
             Star sp, Str ''(''],
     loopPattern = seqs [Bol, alts [Str ''for'', Str ''while''], Star sp, Str ''(''],
     returnPattern = seqs [Bol, Str ''return'', WordB],
     tryCatchPattern = seqs [Bol, alts [Str ''try'', Str ''catch''], WordB],
     propertyPattern = None,
     asyncPattern = None \<rparr>"

text \<open>\<^verbatim>\<open>this.languageConfigs.get(language)\<close>\<close>

definition languageConfigs :: "string \<Rightarrow> LanguageConfig option" where
  "languageConfigs language =
     (if language = ''javascript'' then Some javascript_config
      else if language = ''python'' then Some python_config
      else if language = ''java'' then Some java_config
      else if language = ''cpp'' then Some cpp_config
      else None)"

section \<open>Documents and positions (the editor's accessor)\<close>

record document =
  fsPath :: string
  languageId :: string
  lines :: "string list"

record position =
  line :: nat
  character :: nat

text \<open>\<^verbatim>\<open>document.lineAt(i)\<close> throws for a line that the document does not have.\<close>

datatype error = IllegalLine

definition lineCount :: "document \<Rightarrow> nat" where
  "lineCount doc = length (lines doc)"

definition lineAt :: "document \<Rightarrow> nat \<Rightarrow> error + string" where
  "lineAt doc i = (if i < lineCount doc then Inr (lines doc ! i) else Inl IllegalLine)"

text \<open>A loop over line numbers whose body may throw, and otherwise pushes at most one item
  onto the array that the loop builds.\<close>

fun collect :: "(nat \<Rightarrow> error + 'a option) \<Rightarrow> nat list \<Rightarrow> error + 'a list" where
  "collect body [] = Inr []"
| "collect body (i # is) =
     (case body i of
        Inl e \<Rightarrow> Inl e
      | Inr x \<Rightarrow>
          (case collect body is of
             Inl e \<Rightarrow> Inl e
           | Inr xs \<Rightarrow> Inr (case x of None \<Rightarrow> xs | Some v \<Rightarrow> v # xs)))"

section \<open>The context analyzer (contextAnalyzer.ts)\<close>

record FunctionScope =
  name :: string
  parameters :: "string list"
  returnType :: "string option"
  startLine :: nat
  isAsync :: bool

text \<open>The fields of a class scope and of a variable carry what the match array holds, which
  is \<^verbatim>\<open>undefined\<close> (\<open>None\<close>) for a group that took no part in the match.\<close>

record ClassScope =
  className :: "string option"
  extends :: "string option"
  classStartLine :: nat
  methods :: "string list"
  properties :: "string option list"

datatype VariableScope = local | parameter | global

record VariableInfo =
  varName :: "string option"
  varType :: "string option"
  varValue :: "string option"
  varLine :: nat
  scope :: VariableScope

datatype CodeType =
    function_declaration
  | function_call
  | class_declaration
  | variable_declaration
  | import_statement
  | comment
  | string_literal
  | conditional_statement
  | loop_statement
  | return_statement
  | try_catch
  | interface_declaration
  | type_declaration
  | general

record CodeContext =
  language :: string
  currentLine :: string
  previousLines :: "string list"
  nextLines :: "string list"
  functionScope :: "FunctionScope option"
  classScope :: "ClassScope option"
  importStatements :: "string list"
  variables :: "VariableInfo list"
  codeType :: CodeType
  indentation :: string

text \<open>\<^verbatim>\<open>x || d\<close> on a string that may be undefined\<close>

definition or_else :: "string option \<Rightarrow> string \<Rightarrow> string" where
  "or_else x d = (case x of None \<Rightarrow> d | Some s \<Rightarrow> if s = [] then d else s)"

text \<open>\<^verbatim>\<open>xs[0]\<close> of the pieces of a split, which are never none\<close>

definition piece0 :: "string list \<Rightarrow> string" where
  "piece0 xs = (case xs of [] \<Rightarrow> [] | x # _ \<Rightarrow> x)"

definition getSurroundingLines :: "document \<Rightarrow> position \<Rightarrow> error + (string list \<times> string list)" where
  "getSurroundingLines doc pos =
     (let contextSize = 10;
          startLn = line pos - contextSize;
          endLn = min (int (lineCount doc) - 1) (int (line pos + contextSize))
      in case collect (\<lambda>i. map_sum id Some (lineAt doc i)) [startLn ..< line pos] of
           Inl e \<Rightarrow> Inl e
         | Inr prev \<Rightarrow>
             (case collect (\<lambda>i. map_sum id Some (lineAt doc i))
                     [line pos + 1 ..< nat (endLn + 1)] of
                Inl e \<Rightarrow> Inl e
              | Inr next \<Rightarrow> Inr (prev, next)))"

definition extractParameters :: "string \<Rightarrow> string list" where
  "extractParameters paramStr =
     (let params = filter (\<lambda>p. p \<noteq> []) (map trim (split (CHR '','') paramStr))
      in map (\<lambda>param. trim (piece0 (split (CHR '':'') (piece0 (split (CHR ''='') param))))) params)"

text \<open>One round of the upward search of \<^verbatim>\<open>analyzeFunctionScope\<close>.\<close>

definition functionAt :: "LanguageConfig \<Rightarrow> document \<Rightarrow> nat \<Rightarrow> error + FunctionScope option" where
  "functionAt config doc ln =
     (case lineAt doc ln of
        Inl e \<Rightarrow> Inl e
      | Inr lineText \<Rightarrow>
          (let trimmedLine = trim lineText
           in case exec (functionPattern config) trimmedLine of
                None \<Rightarrow> Inr None
              | Some functionMatch \<Rightarrow>
                  Inr (Some \<lparr>
                    name = or_else (grp functionMatch 1) ''anonymous'',
                    parameters = extractParameters (or_else (grp functionMatch 2) []),
                    returnType = grp functionMatch 3,
                    startLine = ln,
                    isAsync = (case asyncPattern config of
                                 None \<Rightarrow> False
                               | Some p \<Rightarrow> test p trimmedLine) \<rparr>)))"

fun functionScan :: "LanguageConfig \<Rightarrow> document \<Rightarrow> nat \<Rightarrow> error + FunctionScope option" where
  "functionScan config doc 0 = functionAt config doc 0"
| "functionScan config doc (Suc ln) =
     (case functionAt config doc (Suc ln) of
        Inr None \<Rightarrow> functionScan config doc ln
      | r \<Rightarrow> r)"

definition analyzeFunctionScope :: "document \<Rightarrow> position \<Rightarrow> error + FunctionScope option" where
  "analyzeFunctionScope doc pos =
     (case languageConfigs (languageId doc) of
        None \<Rightarrow> Inr None
      | Some config \<Rightarrow> functionScan config doc (line pos))"

definition extractMethods :: "document \<Rightarrow> nat \<Rightarrow> nat \<Rightarrow> error + string list" where
  "extractMethods doc startLn endLn =
     (case languageConfigs (languageId doc) of
        None \<Rightarrow> Inr []
      | Some config \<Rightarrow>
          collect (\<lambda>ln. case lineAt doc ln of
                     Inl e \<Rightarrow> Inl e
                   | Inr lineText \<Rightarrow>
                       Inr (case exec (functionPattern config) (trim lineText) of
                              None \<Rightarrow> None
                            | Some methodMatch \<Rightarrow> Some (or_else (grp methodMatch 1) ''anonymous'')))
            [startLn + 1 ..< endLn])"

definition extractProperties :: "document \<Rightarrow> nat \<Rightarrow> nat \<Rightarrow> error + string option list" where
  "extractProperties doc startLn endLn =
     (case languageConfigs (languageId doc) of
        None \<Rightarrow> Inr []
      | Some config \<Rightarrow>
          collect (\<lambda>ln. case lineAt doc ln of
                     Inl e \<Rightarrow> Inl e
                   | Inr lineText \<Rightarrow>
                       Inr (case propertyPattern config of
                              None \<Rightarrow> None
                            | Some p \<Rightarrow>
                                (case exec p (trim lineText) of
                                   None \<Rightarrow> None
                                 | Some propertyMatch \<Rightarrow> Some (grp propertyMatch 1))))
            [startLn + 1 ..< endLn])"

definition classAt :: "LanguageConfig \<Rightarrow> document \<Rightarrow> position \<Rightarrow> nat \<Rightarrow> error + ClassScope option" where
  "classAt config doc pos ln =
     (case lineAt doc ln of
        Inl e \<Rightarrow> Inl e
      | Inr lineText \<Rightarrow>
          (case exec (classPattern config) (trim lineText) of
             None \<Rightarrow> Inr None
           | Some classMatch \<Rightarrow>
               (case extractMethods doc ln (line pos) of
                  Inl e \<Rightarrow> Inl e
                | Inr ms \<Rightarrow>
                    (case extractProperties doc ln (line pos) of
                       Inl e \<Rightarrow> Inl e
                     | Inr ps \<Rightarrow>
                         Inr (Some \<lparr>
                           className = grp classMatch 1,
                           extends = grp classMatch 2,
                           classStartLine = ln,
                           methods = ms,
                           properties = ps \<rparr>)))))"

fun classScan :: "LanguageConfig \<Rightarrow> document \<Rightarrow> position \<Rightarrow> nat \<Rightarrow> error + ClassScope option" where
  "classScan config doc pos 0 = classAt config doc pos 0"
| "classScan config doc pos (Suc ln) =
     (case classAt config doc pos (Suc ln) of
        Inr None \<Rightarrow> classScan config doc pos ln
      | r \<Rightarrow> r)"

definition analyzeClassScope :: "document \<Rightarrow> position \<Rightarrow> error + ClassScope option" where
  "analyzeClassScope doc pos =
     (case languageConfigs (languageId doc) of
        None \<Rightarrow> Inr None
      | Some config \<Rightarrow> classScan config doc pos (line pos))"

definition extractImportStatements :: "document \<Rightarrow> error + string list" where
  "extractImportStatements doc =
     (case languageConfigs (languageId doc) of
        None \<Rightarrow> Inr []
      | Some config \<Rightarrow>
          collect (\<lambda>ln. case lineAt doc ln of
                     Inl e \<Rightarrow> Inl e
                   | Inr lineText \<Rightarrow>
                       Inr (case exec (importPattern config) (trim lineText) of
                              None \<Rightarrow> None
                            | Some importMatch \<Rightarrow> Some (trim lineText)))
            [0 ..< lineCount doc])"

definition extractVariables :: "document \<Rightarrow> position \<Rightarrow> error + VariableInfo list" where
  "extractVariables doc pos =
     (case languageConfigs (languageId doc) of
        None \<Rightarrow> Inr []
      | Some config \<Rightarrow>
          collect (\<lambda>ln. case lineAt doc ln of
                     Inl e \<Rightarrow> Inl e
                   | Inr lineText \<Rightarrow>
                       Inr (case exec (variablePattern config) (trim lineText) of
                              None \<Rightarrow> None
                            | Some variableMatch \<Rightarrow>
                                Some \<lparr>
                                  varName = grp variableMatch 1,
                                  varType = grp variableMatch 2,
                                  varValue = grp variableMatch 3,
                                  varLine = ln,
                                  scope = (if ln = line pos then local else global) \<rparr>))
            (rev [0 ..< Suc (line pos)]))"

definition determineCodeType :: "string \<Rightarrow> string \<Rightarrow> CodeType" where
  "determineCodeType ln lang =
     (let trimmedLine = trim ln
      in case languageConfigs lang of
           None \<Rightarrow> general
         | Some config \<Rightarrow>
             if test (functionPattern config) trimmedLine then function_declaration
             else if test (classPattern config) trimmedLine then class_declaration
             else if test (importPattern config) trimmedLine then import_statement
             else if test (variablePattern config) trimmedLine then variable_declaration
             else if test (commentPattern config) trimmedLine then comment
             else if test (stringPattern config) trimmedLine then string_literal
             else if test (conditionalPattern config) trimmedLine then conditional_statement
             else if test (loopPattern config) trimmedLine then loop_statement
             else if test (returnPattern config) trimmedLine then return_statement
             else if test (tryCatchPattern config) trimmedLine then try_catch
             else if CHR ''('' \<in> set trimmedLine \<and> CHR '')'' \<in> set trimmedLine then function_call
             else general)"

text \<open>\<^verbatim>\<open>line.match(/^(\s*)/)\<close>, and group 1 of the match\<close>

definition getIndentation :: "string \<Rightarrow> string" where
  "getIndentation ln =
     (case exec (seqs [Bol, Group 1 (Star sp)]) ln of
        None \<Rightarrow> []
      | Some m \<Rightarrow> (case grp m 1 of None \<Rightarrow> [] | Some s \<Rightarrow> s))"

definition analyzeContext :: "document \<Rightarrow> position \<Rightarrow> error + CodeContext" where
  "analyzeContext doc pos =
     (case lineAt doc (line pos) of
        Inl e \<Rightarrow> Inl e
      | Inr currentLn \<Rightarrow>
     (case getSurroundingLines doc pos of
        Inl e \<Rightarrow> Inl e
      | Inr (prev, next) \<Rightarrow>
     (case analyzeFunctionScope doc pos of
        Inl e \<Rightarrow> Inl e
      | Inr fscope \<Rightarrow>
     (case analyzeClassScope doc pos of
        Inl e \<Rightarrow> Inl e
      | Inr cscope \<Rightarrow>
     (case extractImportStatements doc of
        Inl e \<Rightarrow> Inl e
      | Inr imports \<Rightarrow>
     (case extractVariables doc pos of
        Inl e \<Rightarrow> Inl e
      | Inr vars \<Rightarrow>
          Inr \<lparr>
            language = languageId doc,
            currentLine = substring0 currentLn (character pos),
            previousLines = prev,
            nextLines = next,
            functionScope = fscope,
            classScope = cscope,
            importStatements = imports,
            variables = vars,
            codeType = determineCodeType (substring0 currentLn (character pos)) (languageId doc),
            indentation = getIndentation currentLn \<rparr>))))))"

section \<open>The token counter (tokenCounter.ts)\<close>

text \<open>
  The counters and the token counts are JavaScript numbers, which are IEEE 754 doubles with a
  significand of 53 bits.  The model keeps the doubles whose value is an integer, as that
  integer: every integer of magnitude up to \<open>2\<^sup>5\<^sup>3\<close>, and beyond it the integers \<open>m * 2\<^sup>e\<close>
  with \<open>m < 2\<^sup>5\<^sup>3\<close>.  The sum of two doubles is their exact sum rounded to the nearest double,
  a tie going to the double with the even significand.  Numbers with a fraction, \<^verbatim>\<open>NaN\<close> and
  sums of magnitude \<open>2\<^sup>1\<^sup>0\<^sup>2\<^sup>4\<close> or more, which the source rounds to \<^verbatim>\<open>Infinity\<close>, are outside the
  model.  A date is its time in milliseconds.
\<close>

text \<open>The number of low bits that a magnitude has beyond the 53 bits of a significand\<close>

function excess :: "int \<Rightarrow> nat" where
  "excess m = (if m < 2 ^ 53 then 0 else Suc (excess (m div 2)))"
  by pat_completeness auto
termination
  by (relation "measure nat") auto

declare excess.simps [simp del]

text \<open>The double nearest to an integer: the magnitude is cut to a significand \<open>q\<close> of 53 bits
  and the \<open>e\<close> bits \<open>r\<close> below it, and rounded up when \<open>r\<close> is more than half of \<open>2\<^sup>e\<close>, or half
  of it with \<open>q\<close> odd.\<close>

definition round_double :: "int \<Rightarrow> int" where
  "round_double n =
     (let m = \<bar>n\<bar>;
          e = excess m;
          q = m div 2 ^ e;
          r = m mod 2 ^ e;
          up = (2 * r > 2 ^ e \<or> (2 * r = 2 ^ e \<and> odd q))
      in sgn n * ((if up then q + 1 else q) * 2 ^ e))"

text \<open>The operator \<^verbatim>\<open>+\<close> of the source, on two numbers\<close>

definition js_add :: "int \<Rightarrow> int \<Rightarrow> int" where
  "js_add a b = round_double (a + b)"

record TokenStats =
  inputTokens :: int
  outputTokens :: int
  totalTokens :: int
  requestCount :: int
  lastReset :: int

text \<open>The counter object: its statistics and the copy that \<^verbatim>\<open>saveStats\<close> writes to the
  extension's global state.\<close>

record TokenCounter =
  stats :: TokenStats
  globalState :: "TokenStats option"

definition saveStats :: "TokenCounter \<Rightarrow> TokenCounter" where
  "saveStats tc = tc\<lparr>globalState := Some (stats tc)\<rparr>"

definition addTokens :: "int \<Rightarrow> int \<Rightarrow> TokenCounter \<Rightarrow> TokenCounter" where
  "addTokens inTok outTok tc =
     saveStats (tc\<lparr>stats := (stats tc)\<lparr>
       inputTokens := js_add (inputTokens (stats tc)) inTok,
       outputTokens := js_add (outputTokens (stats tc)) outTok,
       totalTokens := js_add (totalTokens (stats tc)) (js_add inTok outTok),
       requestCount := js_add (requestCount (stats tc)) 1 \<rparr>\<rparr>)"

definition getStats :: "TokenCounter \<Rightarrow> TokenStats" where
  "getStats tc = stats tc"

definition resetStats :: "int \<Rightarrow> TokenCounter \<Rightarrow> TokenCounter" where
  "resetStats now tc =
     saveStats (tc\<lparr>stats := \<lparr>
       inputTokens = 0, outputTokens = 0, totalTokens = 0, requestCount = 0,
       lastReset = now \<rparr>\<rparr>)"

text \<open>The constructor: \<^verbatim>\<open>loadStats\<close> takes the stored statistics, or resets.\<close>

definition loadStats :: "int \<Rightarrow> TokenCounter \<Rightarrow> TokenCounter" where
  "loadStats now tc =
     (case globalState tc of
        Some stored \<Rightarrow> tc\<lparr>stats := stored\<rparr>
      | None \<Rightarrow> resetStats now tc)"

text \<open>The calls that a client makes on the counter, and a run of them.\<close>

datatype counter_call = AddTokens int int | ResetStats int

fun counter_step :: "TokenCounter \<Rightarrow> counter_call \<Rightarrow> TokenCounter" where
  "counter_step tc (AddTokens i out) = addTokens i out tc"
| "counter_step tc (ResetStats now) = resetStats now tc"

definition counter_run :: "TokenCounter \<Rightarrow> counter_call list \<Rightarrow> TokenCounter" where
  "counter_run tc calls = foldl counter_step tc calls"

text \<open>The integers up to which every integer is a double; and a run of calls in which every
  sum of token counts that the counter computes, taken exactly, is such an integer.\<close>

definition exact_range :: "int \<Rightarrow> bool" where
  "exact_range n = (\<bar>n\<bar> \<le> 2 ^ 53)"

fun in_exact_range :: "TokenCounter \<Rightarrow> counter_call list \<Rightarrow> bool" where
  "in_exact_range tc [] = True"
| "in_exact_range tc (AddTokens i out # ops) =
     (exact_range (inputTokens (stats tc) + i) \<and> exact_range (outputTokens (stats tc) + out)
      \<and> exact_range (i + out) \<and> exact_range (totalTokens (stats tc) + (i + out))
      \<and> in_exact_range (addTokens i out tc) ops)"
| "in_exact_range tc (ResetStats t # ops) = in_exact_range (resetStats t tc) ops"

section \<open>Configuration (configManager.ts)\<close>

text \<open>The settings of the workspace configuration \<^verbatim>\<open>aiCompletion\<close> that concern the
  completion pipeline, with the defaults of \<^verbatim>\<open>getConfig\<close>.\<close>

record AICompletionConfig =
  enabled :: bool
  delay :: int
  cacheEnabled :: bool
  maxTokens :: int

definition defaultConfig :: AICompletionConfig where
  "defaultConfig = \<lparr>enabled = True, delay = 500, cacheEnabled = True, maxTokens = 1024\<rparr>"

text \<open>\<^verbatim>\<open>validateConfig\<close>, for the numeric settings above: a setting that is absent from the
  partial configuration is not checked.\<close>

datatype config_error = MaxTokensOutOfRange | DelayOutOfRange

record PartialConfig =
  maxTokens_opt :: "int option"
  delay_opt :: "int option"

definition validateConfig :: "PartialConfig \<Rightarrow> bool \<times> config_error list" where
  "validateConfig config =
     (let errors =
            (case maxTokens_opt config of
               None \<Rightarrow> []
             | Some m \<Rightarrow> if m < 1 \<or> m > 8192 then [MaxTokensOutOfRange] else [])
            @ (case delay_opt config of
                 None \<Rightarrow> []
               | Some d \<Rightarrow> if d < 100 \<or> d > 5000 then [DelayOutOfRange] else [])
      in (errors = [], errors))"

section \<open>The completion provider (completionProvider.ts)\<close>

record CompletionCache =
  cacheText :: string
  timestamp :: int
  cacheContext :: string

record CompletionRequest =
  prompt :: string
  reqLanguage :: string
  reqContext :: string

text \<open>The backend's answer; a token count may be absent.\<close>

record CompletionResponse =
  respText :: string
  respInputTokens :: "int option"
  respOutputTokens :: "int option"
  success :: bool

definition CACHE_DURATION :: int where
  "CACHE_DURATION = 30000"

definition DEBOUNCE_DELAY :: int where
  "DEBOUNCE_DELAY = 500"

text \<open>A number in a template string\<close>

fun digits :: "nat \<Rightarrow> string" where
  "digits n =
     (if n < 10 then [char_of (48 + n)]
      else digits (n div 10) @ [char_of (48 + n mod 10)])"

definition buildCacheKey :: "document \<Rightarrow> position \<Rightarrow> error + string" where
  "buildCacheKey doc pos =
     (case lineAt doc (line pos) of
        Inl e \<Rightarrow> Inl e
      | Inr lineText \<Rightarrow>
          Inr (fsPath doc @ '':'' @ digits (line pos) @ '':'' @ digits (character pos) @ '':''
               @ substring0 lineText (character pos)))"

text \<open>\<^verbatim>\<open>getContext\<close>: the lines before, the lines after, and the full context.\<close>

definition getContext :: "document \<Rightarrow> position \<Rightarrow> error + (string list \<times> string list \<times> string)" where
  "getContext doc pos =
     (let contextLines = 10
      in case collect (\<lambda>i. map_sum id Some (lineAt doc i))
                [line pos - contextLines ..< line pos] of
           Inl e \<Rightarrow> Inl e
         | Inr beforeLines \<Rightarrow>
             (case collect (\<lambda>i. map_sum id Some (lineAt doc i))
                     [line pos + 1 ..< min (lineCount doc) (line pos + contextLines + 1)] of
                Inl e \<Rightarrow> Inl e
              | Inr afterLines \<Rightarrow>
                  (case lineAt doc (line pos) of
                     Inl e \<Rightarrow> Inl e
                   | Inr cur \<Rightarrow>
                       Inr (beforeLines, afterLines,
                            join [CHR 0x0A] (beforeLines @ [cur] @ afterLines)))))"

definition analyzeLineType :: "string \<Rightarrow> string" where
  "analyzeLineType ln =
     (let trimmedLine = trim ln
      in if test (seqs [Bol,
                   Group 1 (alts [Str ''function'', Str ''def'', Str ''func'', Str ''public'',
                                  Str ''private'', Str ''protected'']),
                   Plus sp, Plus wd, Star sp, Str ''('', Star (Atom (NoneOf '')'')), Str '')'',
                   Star sp, alts [Str ''{'', Str '':'', Str ''where'']]) trimmedLine
         then ''function_start''
         else if test (seqs [Bol, Group 1 (alts [Str ''class'', Str ''struct'', Str ''interface'']),
                   Plus sp, Plus wd]) trimmedLine
         then ''class_start''
         else if test (seqs [Bol,
                   Group 1 (alts [Str ''if'', Str ''else if'', Str ''elif'', Str ''when'']),
                   Star sp, Str ''('', Star (Atom AnyCh), Str '')'', Star sp, Opt (Str ''{'')])
                 trimmedLine
         then ''if_statement''
         else if test (seqs [Bol, Group 1 (alts [Str ''for'', Str ''while'', Str ''do'']),
                   Star sp, Str ''('', Star (Atom AnyCh), Str '')'', Star sp, Opt (Str ''{'')])
                 trimmedLine
         then ''loop_start''
         else if test (seqs [Bol,
                   Group 1 (alts [Str ''const'', Str ''let'', Str ''var'', Str ''private'',
                                  Str ''public'', Str ''protected'']),
                   Plus sp, Plus wd]) trimmedLine
         then ''variable_declaration''
         else if test (seqs [Bol,
                   Group 1 (alts [Str ''import'', Str ''include'', Str ''require'', Str ''using'']),
                   Plus sp]) trimmedLine
         then ''import_statement''
         else if test (alts [seqs [Bol, Str ''/*''], Str ''//'', Str ''#'']) trimmedLine
         then ''comment''
         else ''general'')"

text \<open>\<^verbatim>\<open>buildPrompt\<close>: every case of the switch returns the current line.\<close>

definition buildPrompt :: "string \<Rightarrow> position \<Rightarrow> string" where
  "buildPrompt currentLn pos =
     (let lineType = analyzeLineType currentLn
      in if lineType = ''function_start'' then currentLn
         else if lineType = ''class_start'' then currentLn
         else if lineType = ''if_statement'' then currentLn
         else if lineType = ''loop_start'' then currentLn
         else if lineType = ''variable_declaration'' then currentLn
         else if lineType = ''import_statement'' then currentLn
         else if lineType = ''comment'' then currentLn
         else currentLn)"

definition buildCompletionRequest :: "document \<Rightarrow> position \<Rightarrow> error + CompletionRequest" where
  "buildCompletionRequest doc pos =
     (case lineAt doc (line pos) of
        Inl e \<Rightarrow> Inl e
      | Inr lineText \<Rightarrow>
          (case getContext doc pos of
             Inl e \<Rightarrow> Inl e
           | Inr (before, after, fullContext) \<Rightarrow>
               Inr \<lparr>prompt = buildPrompt (substring0 lineText (character pos)) pos,
                    reqLanguage = languageId doc,
                    reqContext = fullContext\<rparr>))"

subsection \<open>The provider's state and the event loop\<close>

text \<open>
  The provider runs on the single thread of an event loop.  Its asynchronous code is modelled
  by the state it leaves between two turns of the loop: the timers that \<^verbatim>\<open>setTimeout\<close> has
  set and that have neither fired nor been cleared, and the backend calls that have been
  issued and wait for their answer, each with what its closure captured.  A call of
  \<^verbatim>\<open>getCompletionSuggestions\<close> gets a number, which names the promise it returns, the timer
  it sets and the backend call its timer issues.  Each promise has one closure, which runs at
  most once and calls \<^verbatim>\<open>resolve\<close> once on every path, so resolving records the value.
  The log of backend calls is kept for the statements only.

  The document that a closure captures is an object that the editor keeps up to date: what the
  timer's callback reads from it is its text when the timer fires, not its text when the
  request was made.  The state therefore holds the present text of the documents, by their
  path.  A request carries the document as it is when the request is made, and an edit
  replaces the text.
\<close>

datatype outcome = Resolved "string list" | Rejected error

record job =
  jobKey :: string
  jobDoc :: document
  jobPos :: position
  jobToken :: nat

record timer =
  timerId :: nat
  due :: int
  timerJob :: job

record backend_call =
  callId :: nat
  callRequest :: CompletionRequest
  callJob :: job

record world =
  config :: AICompletionConfig
  now :: int
  documents :: "string \<rightharpoonup> document"
  cancelled :: "nat set"
  cache :: "string \<rightharpoonup> CompletionCache"
  debounceMap :: "(string \<times> nat) list"
  timers :: "timer list"
  calls :: "backend_call list"
  backendLog :: "(string \<times> CompletionRequest) list"
  tokenCounter :: TokenCounter
  promises :: "nat \<rightharpoonup> outcome"
  nextId :: nat

definition clearTimeout :: "nat \<Rightarrow> world \<Rightarrow> world" where
  "clearTimeout tid w = w\<lparr>timers := filter (\<lambda>t. timerId t \<noteq> tid) (timers w)\<rparr>"

definition resolve :: "nat \<Rightarrow> string list \<Rightarrow> world \<Rightarrow> world" where
  "resolve p v w = w\<lparr>promises := (promises w)(p \<mapsto> Resolved v)\<rparr>"

text \<open>\<^verbatim>\<open>this.debounceMap.delete(cacheKey)\<close>, the \<^verbatim>\<open>finally\<close> block of the timer's callback\<close>

definition debounceDelete :: "string \<Rightarrow> world \<Rightarrow> world" where
  "debounceDelete key w = w\<lparr>debounceMap := AList.delete key (debounceMap w)\<rparr>"

definition cleanCache :: "world \<Rightarrow> world" where
  "cleanCache w =
     w\<lparr>cache := (\<lambda>key. case cache w key of
                       None \<Rightarrow> None
                     | Some v \<Rightarrow> if now w - timestamp v > CACHE_DURATION then None else Some v)\<rparr>"

text \<open>The test \<^verbatim>\<open>cached && Date.now() - cached.timestamp < this.CACHE_DURATION\<close>\<close>

definition cacheLookup :: "world \<Rightarrow> string \<Rightarrow> CompletionCache option" where
  "cacheLookup w key =
     (case cache w key of
        None \<Rightarrow> None
      | Some cached \<Rightarrow> if now w - timestamp cached < CACHE_DURATION then Some cached else None)"

definition getCompletionSuggestions :: "document \<Rightarrow> position \<Rightarrow> nat \<Rightarrow> world \<Rightarrow> world" where
  "getCompletionSuggestions doc pos tok w =
     (let p = nextId w;
          w0 = w\<lparr>nextId := Suc p\<rparr>
      in case buildCacheKey doc pos of
           Inl e \<Rightarrow> w0\<lparr>promises := (promises w0)(p \<mapsto> Rejected e)\<rparr>
         | Inr cacheKey \<Rightarrow>
             (case cacheLookup w0 cacheKey of
                Some cached \<Rightarrow> resolve p [cacheText cached] w0
              | None \<Rightarrow>
                  (let w1 = (case map_of (debounceMap w0) cacheKey of
                               Some old \<Rightarrow> clearTimeout old w0
                             | None \<Rightarrow> w0)
                   in w1\<lparr>timers := timers w1 @
                            [\<lparr>timerId = p, due = now w1 + DEBOUNCE_DELAY,
                              timerJob = \<lparr>jobKey = cacheKey, jobDoc = doc, jobPos = pos,
                                          jobToken = tok\<rparr>\<rparr>],
                          debounceMap := AList.update cacheKey p (debounceMap w1)\<rparr>)))"

text \<open>\<^verbatim>\<open>provideCompletionItems\<close>, up to the conversion of the suggestions to completion
  items: the entry checks, and the \<^verbatim>\<open>catch\<close> that turns a rejection into no items.\<close>

definition provideCompletionItems :: "document \<Rightarrow> position \<Rightarrow> nat \<Rightarrow> world \<Rightarrow> world" where
  "provideCompletionItems doc pos tok w =
     (let p = nextId w
      in if \<not> enabled (config w) then resolve p [] (w\<lparr>nextId := Suc p\<rparr>)
         else if tok \<in> cancelled w then resolve p [] (w\<lparr>nextId := Suc p\<rparr>)
         else (let w' = getCompletionSuggestions doc pos tok w
               in case promises w' p of
                    Some (Rejected e) \<Rightarrow> resolve p [] w'
                  | _ \<Rightarrow> w'))"

text \<open>What a closure reads from the document it has captured: the present text.\<close>

definition liveDocument :: "world \<Rightarrow> document \<Rightarrow> document" where
  "liveDocument w doc = (case documents w (fsPath doc) of Some present \<Rightarrow> present | None \<Rightarrow> doc)"

text \<open>The callback of the timer, up to the \<^verbatim>\<open>await\<close> of the backend call.\<close>

definition timerCallback :: "nat \<Rightarrow> job \<Rightarrow> world \<Rightarrow> world" where
  "timerCallback p j w =
     (if jobToken j \<in> cancelled w then debounceDelete (jobKey j) (resolve p [] w)
      else case buildCompletionRequest (liveDocument w (jobDoc j)) (jobPos j) of
             Inl e \<Rightarrow> debounceDelete (jobKey j) (resolve p [] w)
           | Inr request \<Rightarrow>
               if trim (prompt request) = [] then debounceDelete (jobKey j) (resolve p [] w)
               else w\<lparr>calls := calls w @ [\<lparr>callId = p, callRequest = request, callJob = j\<rparr>],
                      backendLog := backendLog w @ [(jobKey j, request)]\<rparr>)"

text \<open>A timer fires: not before it is due, and only if it is still set.\<close>

definition fire :: "nat \<Rightarrow> world \<Rightarrow> world" where
  "fire tid w =
     (case find (\<lambda>t. timerId t = tid) (timers w) of
        None \<Rightarrow> w
      | Some t \<Rightarrow>
          if now w < due t then w
          else timerCallback tid (timerJob t)
                 (w\<lparr>timers := filter (\<lambda>t. timerId t \<noteq> tid) (timers w)\<rparr>))"

text \<open>\<^verbatim>\<open>response.inputTokens && response.outputTokens\<close>: both present and not zero\<close>

definition countTokens :: "CompletionResponse \<Rightarrow> world \<Rightarrow> world" where
  "countTokens response w =
     (case (respInputTokens response, respOutputTokens response) of
        (Some i, Some out) \<Rightarrow>
          if i \<noteq> 0 \<and> out \<noteq> 0 then w\<lparr>tokenCounter := addTokens i out (tokenCounter w)\<rparr> else w
      | _ \<Rightarrow> w)"

text \<open>The callback after the \<^verbatim>\<open>await\<close>, when the backend has answered.\<close>

definition responseArrived :: "backend_call \<Rightarrow> CompletionResponse \<Rightarrow> world \<Rightarrow> world" where
  "responseArrived c response w =
     debounceDelete (jobKey (callJob c))
       (if success response \<and> trim (respText response) \<noteq> [] then
          (let w1 = countTokens response w;
               w2 = w1\<lparr>cache := (cache w1)(jobKey (callJob c) \<mapsto>
                         \<lparr>cacheText = respText response, timestamp = now w1,
                          cacheContext = reqContext (callRequest c)\<rparr>)\<rparr>;
               w3 = cleanCache w2
           in resolve (callId c) [respText response] w3)
        else resolve (callId c) [] w)"

definition respond :: "nat \<Rightarrow> CompletionResponse \<Rightarrow> world \<Rightarrow> world" where
  "respond cid response w =
     (case find (\<lambda>c. callId c = cid) (calls w) of
        None \<Rightarrow> w
      | Some c \<Rightarrow>
          responseArrived c response (w\<lparr>calls := filter (\<lambda>c. callId c \<noteq> cid) (calls w)\<rparr>))"

text \<open>The backend call throws: the \<^verbatim>\<open>catch\<close> block, then the \<^verbatim>\<open>finally\<close> block.\<close>

definition backendThrows :: "nat \<Rightarrow> world \<Rightarrow> world" where
  "backendThrows cid w =
     (case find (\<lambda>c. callId c = cid) (calls w) of
        None \<Rightarrow> w
      | Some c \<Rightarrow>
          debounceDelete (jobKey (callJob c))
            (resolve cid [] (w\<lparr>calls := filter (\<lambda>c. callId c \<noteq> cid) (calls w)\<rparr>)))"

definition clearCache :: "world \<Rightarrow> world" where
  "clearCache w =
     (fold clearTimeout (map snd (debounceMap w)) w)\<lparr>cache := Map.empty, debounceMap := []\<rparr>"

text \<open>What can happen in one turn of the event loop, or between two turns.\<close>

datatype event =
    Request document position nat
  | Edit document
  | Fire nat
  | Respond nat CompletionResponse
  | Throw nat
  | Cancel nat
  | Tick nat
  | Configure AICompletionConfig
  | ClearCache

fun step :: "world \<Rightarrow> event \<Rightarrow> world" where
  "step w (Request doc pos tok) =
     provideCompletionItems doc pos tok (w\<lparr>documents := (documents w)(fsPath doc \<mapsto> doc)\<rparr>)"
| "step w (Edit doc) = w\<lparr>documents := (documents w)(fsPath doc \<mapsto> doc)\<rparr>"
| "step w (Fire tid) = fire tid w"
| "step w (Respond cid response) = respond cid response w"
| "step w (Throw cid) = backendThrows cid w"
| "step w (Cancel tok) = w\<lparr>cancelled := insert tok (cancelled w)\<rparr>"
| "step w (Tick ms) = w\<lparr>now := now w + int ms\<rparr>"
| "step w (Configure c) = w\<lparr>config := c\<rparr>"
| "step w ClearCache = clearCache w"

definition run :: "world \<Rightarrow> event list \<Rightarrow> world" where
  "run w evs = foldl step w evs"

text \<open>The provider after activation, with the given settings.\<close>

definition start :: "AICompletionConfig \<Rightarrow> world" where
  "start c = \<lparr>
     config = c, now = 0, documents = Map.empty, cancelled = {}, cache = Map.empty,
     debounceMap = [], timers = [],
     calls = [], backendLog = [],
     tokenCounter = loadStats 0 \<lparr>stats = \<lparr>inputTokens = 0, outputTokens = 0, totalTokens = 0,
                                          requestCount = 0, lastReset = 0\<rparr>,
                                 globalState = None\<rparr>,
     promises = Map.empty, nextId = 0 \<rparr>"

subsection \<open>Notions for the statements\<close>

text \<open>The timers that are set for a cache key, and the backend calls made for it.\<close>

definition timersFor :: "string \<Rightarrow> world \<Rightarrow> timer list" where
  "timersFor K w = filter (\<lambda>t. jobKey (timerJob t) = K) (timers w)"

definition callsFor :: "string \<Rightarrow> world \<Rightarrow> CompletionRequest list" where
  "callsFor K w = map snd (filter (\<lambda>kr. fst kr = K) (backendLog w))"

text \<open>Every timer that is set, and every timer that the debounce table holds, was numbered by
  an earlier request; and a timer that is set for the key \<open>K\<close> is the one that the debounce
  table holds for \<open>K\<close>, and the table holds it for no other key.\<close>

definition tidy :: "string \<Rightarrow> world \<Rightarrow> bool" where
  "tidy K w =
     ((\<forall>t \<in> set (timers w).
         timerId t < nextId w \<and>
         (jobKey (timerJob t) = K \<longrightarrow>
            (\<forall>k. (map_of (debounceMap w) k = Some (timerId t)) = (k = K))))
      \<and> (\<forall>k i. map_of (debounceMap w) k = Some i \<longrightarrow> i < nextId w))"

text \<open>An event that leaves the executions scheduled for \<open>K\<close> alone, in the state in which it
  happens: it is not the firing of a timer that is set for \<open>K\<close>, nor the answer or the failure
  of a backend call made for \<open>K\<close>; it does not switch the feature off and does not clear the
  cache.  Requests, for \<open>K\<close> and for other keys, edits, the passing of time and cancellation
  signals are such events.  A run of such events; and the requests for \<open>K\<close>.\<close>

fun spares :: "string \<Rightarrow> world \<Rightarrow> event \<Rightarrow> bool" where
  "spares K w (Fire tid) = (\<forall>t \<in> set (timers w). timerId t = tid \<longrightarrow> jobKey (timerJob t) \<noteq> K)"
| "spares K w (Respond cid response) =
     (\<forall>c \<in> set (calls w). callId c = cid \<longrightarrow> jobKey (callJob c) \<noteq> K)"
| "spares K w (Throw cid) = (\<forall>c \<in> set (calls w). callId c = cid \<longrightarrow> jobKey (callJob c) \<noteq> K)"
| "spares K w (Configure c) = enabled c"
| "spares K w ClearCache = False"
| "spares K w (Request doc pos tok) = True"
| "spares K w (Edit doc) = True"
| "spares K w (Cancel tok) = True"
| "spares K w (Tick ms) = True"

fun undisturbed :: "string \<Rightarrow> world \<Rightarrow> event list \<Rightarrow> bool" where
  "undisturbed K w [] = True"
| "undisturbed K w (ev # evs) = (spares K w ev \<and> undisturbed K (step w ev) evs)"

fun requestFor :: "string \<Rightarrow> event \<Rightarrow> bool" where
  "requestFor K (Request doc pos tok) = (buildCacheKey doc pos = Inr K)"
| "requestFor K _ = False"


subsection \<open>Example inputs\<close>

text \<open>The document of the specification's scenario, the cursor after \<^verbatim>\<open>    total\<close> on its
  second line, and three answers of the backend.\<close>

definition scenario_doc :: document where
  "scenario_doc =
     \<lparr>fsPath = ''/w/calc.py'', languageId = ''python'',
      lines = [''def add(a, b):'', ''    total = a + b'', ''    '']\<rparr>"

definition at_total :: position where
  "at_total = \<lparr>line = 1, character = 9\<rparr>"

definition answer :: CompletionResponse where
  "answer = \<lparr>respText = '' = a + b'', respInputTokens = Some 12, respOutputTokens = Some 5,
             success = True\<rparr>"

definition answer_without_usage :: CompletionResponse where
  "answer_without_usage =
     \<lparr>respText = '' = a + b'', respInputTokens = Some 0, respOutputTokens = Some 0,
      success = True\<rparr>"

definition failure :: CompletionResponse where
  "failure = \<lparr>respText = [], respInputTokens = None, respOutputTokens = None, success = False\<rparr>"

text \<open>The cache key, the job, the backend request, the backend call and the cache entry of a
  request at \<open>at_total\<close> with the signal \<open>0\<close>, and the states of the provider when that
  request has been made on activation, when its backend call has been issued half a second
  later, and when the answer has arrived.\<close>

definition key_total :: string where
  "key_total = ''/w/calc.py:1:9:    total''"

definition job_total :: job where
  "job_total = \<lparr>jobKey = key_total, jobDoc = scenario_doc, jobPos = at_total, jobToken = 0\<rparr>"

definition request_total :: CompletionRequest where
  "request_total =
     \<lparr>prompt = ''    total'', reqLanguage = ''python'',
      reqContext = join [CHR 0x0A] (lines scenario_doc)\<rparr>"

definition call_total :: backend_call where
  "call_total = \<lparr>callId = 0, callRequest = request_total, callJob = job_total\<rparr>"

definition entry_total :: CompletionCache where
  "entry_total =
     \<lparr>cacheText = '' = a + b'', timestamp = 500, cacheContext = reqContext request_total\<rparr>"

definition zero_stats :: TokenStats where
  "zero_stats =
     \<lparr>inputTokens = 0, outputTokens = 0, totalTokens = 0, requestCount = 0, lastReset = 0\<rparr>"

definition timer_total :: timer where
  "timer_total = \<lparr>timerId = 0, due = 500, timerJob = job_total\<rparr>"

definition scheduled :: world where
  "scheduled =
     \<lparr>config = defaultConfig, now = 0, documents = [fsPath scenario_doc \<mapsto> scenario_doc],
      cancelled = {}, cache = Map.empty,
      debounceMap = [(key_total, 0)], timers = [timer_total], calls = [], backendLog = [],
      tokenCounter = \<lparr>stats = zero_stats, globalState = Some zero_stats\<rparr>,
      promises = Map.empty, nextId = 1\<rparr>"

definition issued :: world where
  "issued =
     \<lparr>config = defaultConfig, now = 500, documents = [fsPath scenario_doc \<mapsto> scenario_doc],
      cancelled = {}, cache = Map.empty,
      debounceMap = [(key_total, 0)], timers = [], calls = [call_total],
      backendLog = [(key_total, request_total)],
      tokenCounter = \<lparr>stats = zero_stats, globalState = Some zero_stats\<rparr>,
      promises = Map.empty, nextId = 1\<rparr>"

definition counted_stats :: TokenStats where
  "counted_stats =
     \<lparr>inputTokens = 12, outputTokens = 5, totalTokens = 17, requestCount = 1, lastReset = 0\<rparr>"

definition cached :: world where
  "cached =
     \<lparr>config = defaultConfig, now = 500, documents = [fsPath scenario_doc \<mapsto> scenario_doc],
      cancelled = {}, cache = [key_total \<mapsto> entry_total],
      debounceMap = [], timers = [], calls = [],
      backendLog = [(key_total, request_total)],
      tokenCounter = \<lparr>stats = counted_stats, globalState = Some counted_stats\<rparr>,
      promises = [0 \<mapsto> Resolved ['' = a + b'']], nextId = 1\<rparr>"

text \<open>Two calls on the token counter whose counts leave the range in which every integer is
  a double, a run of calls with small counts, and the counter before its first reset.\<close>

definition rounding_calls :: "counter_call list" where
  "rounding_calls = [AddTokens (2 ^ 53) 1, AddTokens 0 1]"

definition small_calls :: "counter_call list" where
  "small_calls = [AddTokens 12 5, ResetStats 7, AddTokens 3 4]"

definition fresh_counter :: TokenCounter where
  "fresh_counter =
     \<lparr>stats = \<lparr>inputTokens = 0, outputTokens = 0, totalTokens = 0, requestCount = 0,
               lastReset = 0\<rparr>,
      globalState = None\<rparr>"



text \<open>A run in which the answer to an earlier request for a key arrives between two later
  requests for that key.  The first request is made at time 0; its timer fires at 500 and
  the backend call is issued.  The second request is made at 600, the backend's answer to the
  first call, a failure, arrives at 700, and the third request is made at 800, before the
  timer of the second request is due at 1100.  Then the timers fire when they are due.\<close>

definition answered_events :: "event list" where
  "answered_events =
     [Request scenario_doc at_total 0, Tick 500, Fire 0,
      Tick 100, Request scenario_doc at_total 1, Tick 100, Respond 0 failure]"

definition next_request_events :: "event list" where
  "next_request_events = [Tick 100, Request scenario_doc at_total 2]"

definition due_events :: "event list" where
  "due_events = [Tick 300, Fire 1, Tick 200, Fire 2]"

text \<open>The scenario's document after an edit of its second line, and the backend request for
  the cursor at \<open>at_total\<close> in it.\<close>

definition edited_doc :: document where
  "edited_doc =
     \<lparr>fsPath = ''/w/calc.py'', languageId = ''python'',
      lines = [''def add(a, b):'', ''    total = b + a'', ''    '']\<rparr>"

definition request_edited :: CompletionRequest where
  "request_edited =
     \<lparr>prompt = ''    total'', reqLanguage = ''python'',
      reqContext = join [CHR 0x0A] (lines edited_doc)\<rparr>"

text \<open>A debounce window for the key of \<open>at_total\<close>.  A request for it is made at time 0; a
  tenth of a second later its signal is set and a request for another key is made, with the
  cursor after \<^verbatim>\<open>def\<close> on the first line.  The last request for the key is made at 200.  Then the
  document is edited, the timer of the other key fires at 600, its backend call is answered,
  and at 700 the timer of the last request is due.\<close>

definition at_def :: position where
  "at_def = \<lparr>line = 0, character = 3\<rparr>"

definition window_events :: "event list" where
  "window_events =
     [Request scenario_doc at_total 0, Tick 100, Cancel 0, Request scenario_doc at_def 1, Tick 100]"

definition after_events :: "event list" where
  "after_events = [Edit edited_doc, Tick 400, Fire 1, Respond 1 answer, Tick 100]"



section \<open>Properties of the token counter\<close>

lemma excess_small: "m < 2 ^ 53 \<Longrightarrow> excess m = 0"
  by (simp add: excess.simps)

lemma excess_one: "2 ^ 53 \<le> m \<Longrightarrow> m < 2 ^ 54 \<Longrightarrow> excess m = 1"
  by (subst excess.simps) (simp add: excess_small)

lemma round_double_exact:
  assumes "exact_range n"
  shows "round_double n = n"
proof (cases "\<bar>n\<bar> < 2 ^ 53")
  case True
  then show ?thesis
    by (simp add: round_double_def excess_small Let_def sgn_mult_abs flip: abs_sgn)
next
  case False
  with assms have m: "\<bar>n\<bar> = 2 ^ 53"
    by (simp add: exact_range_def)
  then have "excess \<bar>n\<bar> = 1"
    by (simp add: excess_one)
  with m have "round_double n = sgn n * \<bar>n\<bar>"
    by (simp add: round_double_def Let_def)
  then show ?thesis
    by (simp add: sgn_mult_abs)
qed

lemma js_add_exact: "exact_range (a + b) \<Longrightarrow> js_add a b = a + b"
  by (simp add: js_add_def round_double_exact)


lemma counter_run_Nil: "counter_run tc [] = tc"
  and counter_run_Cons: "counter_run tc (c # cs) = counter_run (counter_step tc c) cs"
  and counter_run_snoc: "counter_run tc (cs @ [c]) = counter_step (counter_run tc cs) c"
  by (simp_all add: counter_run_def)

lemma exact_range_0: "exact_range 0"
  by (simp add: exact_range_def)

lemma counter_run_total:
  assumes "in_exact_range tc cs"
    and "totalTokens (stats tc) = inputTokens (stats tc) + outputTokens (stats tc)"
    and "exact_range (totalTokens (stats tc))"
  shows "totalTokens (stats (counter_run tc cs)) =
           inputTokens (stats (counter_run tc cs)) + outputTokens (stats (counter_run tc cs))
         \<and> exact_range (totalTokens (stats (counter_run tc cs)))"
  using assms
proof (induction tc cs rule: in_exact_range.induct)
  case (1 tc)
  then show ?case by (simp add: counter_run_Nil)
next
  case (2 tc i out ops)
  from "2.prems"(1) have r: "exact_range (inputTokens (stats tc) + i)"
    "exact_range (outputTokens (stats tc) + out)" "exact_range (i + out)"
    "exact_range (totalTokens (stats tc) + (i + out))" "in_exact_range (addTokens i out tc) ops"
    by simp_all
  have s: "stats (addTokens i out tc) = (stats tc)\<lparr>
       inputTokens := inputTokens (stats tc) + i,
       outputTokens := outputTokens (stats tc) + out,
       totalTokens := totalTokens (stats tc) + (i + out),
       requestCount := js_add (requestCount (stats tc)) 1\<rparr>"
    using r by (simp add: addTokens_def saveStats_def js_add_exact)
  have "totalTokens (stats (counter_run (addTokens i out tc) ops)) =
           inputTokens (stats (counter_run (addTokens i out tc) ops))
           + outputTokens (stats (counter_run (addTokens i out tc) ops))
         \<and> exact_range (totalTokens (stats (counter_run (addTokens i out tc) ops)))"
    using r(4,5) "2.prems"(2) by (intro "2.IH") (simp_all add: s)
  then show ?case unfolding counter_run_Cons counter_step.simps .
next
  case (3 tc t ops)
  have "totalTokens (stats (counter_run (resetStats t tc) ops)) =
           inputTokens (stats (counter_run (resetStats t tc) ops))
           + outputTokens (stats (counter_run (resetStats t tc) ops))
         \<and> exact_range (totalTokens (stats (counter_run (resetStats t tc) ops)))"
    using "3.prems"(1)
    by (intro "3.IH") (simp_all add: resetStats_def saveStats_def exact_range_0)
  then show ?case unfolding counter_run_Cons counter_step.simps .
qed

lemma requestCount_addTokens:
  "requestCount (stats (addTokens i out tc)) = js_add (requestCount (stats tc)) 1"
  by (simp add: addTokens_def saveStats_def)

lemma replicate_snoc: "replicate (n + 1) x = replicate n x @ [x]"
  by (simp add: replicate_append_same)

lemma requestCount_counts:
  assumes "requestCount (stats tc) = 0" and "int n \<le> 2 ^ 53"
  shows "requestCount (stats (counter_run tc (replicate n (AddTokens 0 0)))) = int n"
  using assms(2)
proof (induction n)
  case 0
  then show ?case by (simp add: counter_run_Nil assms(1))
next
  case (Suc n)
  then have "requestCount (stats (counter_run tc (replicate n (AddTokens 0 0)))) = int n"
    by simp
  moreover have "exact_range (int n + 1)"
    using Suc.prems by (simp add: exact_range_def)
  moreover have "replicate (Suc n) (AddTokens 0 0) = replicate n (AddTokens 0 0) @ [AddTokens 0 0]"
    by (simp add: replicate_append_same)
  ultimately show ?case
    by (simp only: counter_run_snoc counter_step.simps requestCount_addTokens js_add_exact)
qed

text \<open>
  Claim C10, as amended.  Starting from the reset state, after any sequence of \<^verbatim>\<open>addTokens\<close>
  and \<^verbatim>\<open>resetStats\<close> calls in which every sum of token counts that the counter computes
  stays, taken exactly, within the integers of magnitude up to \<open>2\<^sup>5\<^sup>3\<close>, the statistics satisfy
  \<open>totalTokens = inputTokens + outputTokens\<close>, for the exact sum and for the sum of the
  source's arithmetic alike; an \<^verbatim>\<open>addTokens\<close> call increments \<open>requestCount\<close> by exactly one
  when the incremented count is within that range; and \<^verbatim>\<open>resetStats\<close> returns all four
  counters to zero.
\<close>

theorem token_counter_invariant:
  "(in_exact_range (resetStats t0 tc) ops \<longrightarrow>
      totalTokens (stats (counter_run (resetStats t0 tc) ops)) =
        inputTokens (stats (counter_run (resetStats t0 tc) ops))
        + outputTokens (stats (counter_run (resetStats t0 tc) ops))
      \<and> totalTokens (stats (counter_run (resetStats t0 tc) ops)) =
          js_add (inputTokens (stats (counter_run (resetStats t0 tc) ops)))
                 (outputTokens (stats (counter_run (resetStats t0 tc) ops))))
   \<and> (exact_range (requestCount (stats tc') + 1) \<longrightarrow>
        requestCount (stats (addTokens i out tc')) = requestCount (stats tc') + 1)
   \<and> inputTokens (stats (resetStats t1 tc')) = 0
   \<and> outputTokens (stats (resetStats t1 tc')) = 0
   \<and> totalTokens (stats (resetStats t1 tc')) = 0
   \<and> requestCount (stats (resetStats t1 tc')) = 0"
proof -
  have a: "totalTokens (stats (counter_run (resetStats t0 tc) ops)) =
        inputTokens (stats (counter_run (resetStats t0 tc) ops))
        + outputTokens (stats (counter_run (resetStats t0 tc) ops))
      \<and> totalTokens (stats (counter_run (resetStats t0 tc) ops)) =
          js_add (inputTokens (stats (counter_run (resetStats t0 tc) ops)))
                 (outputTokens (stats (counter_run (resetStats t0 tc) ops)))"
    if h: "in_exact_range (resetStats t0 tc) ops"
  proof -
    have "totalTokens (stats (resetStats t0 tc)) =
            inputTokens (stats (resetStats t0 tc)) + outputTokens (stats (resetStats t0 tc))"
      "exact_range (totalTokens (stats (resetStats t0 tc)))"
      by (simp_all add: resetStats_def saveStats_def exact_range_0)
    note q = counter_run_total[OF h this]
    note t = q[THEN conjunct1] and e = q[THEN conjunct2]
    from e have "exact_range (inputTokens (stats (counter_run (resetStats t0 tc) ops))
        + outputTokens (stats (counter_run (resetStats t0 tc) ops)))"
      by (simp only: t)
    then have "js_add (inputTokens (stats (counter_run (resetStats t0 tc) ops)))
                 (outputTokens (stats (counter_run (resetStats t0 tc) ops)))
               = inputTokens (stats (counter_run (resetStats t0 tc) ops))
                 + outputTokens (stats (counter_run (resetStats t0 tc) ops))"
      by (rule js_add_exact)
    with t show ?thesis by simp
  qed
  have b: "requestCount (stats (addTokens i out tc')) = requestCount (stats tc') + 1"
    if "exact_range (requestCount (stats tc') + 1)"
    using that by (simp add: requestCount_addTokens js_add_exact)
  have c: "inputTokens (stats (resetStats t1 tc')) = 0" "outputTokens (stats (resetStats t1 tc')) = 0"
    "totalTokens (stats (resetStats t1 tc')) = 0" "requestCount (stats (resetStats t1 tc')) = 0"
    by (simp_all add: resetStats_def saveStats_def)
  from a b c show ?thesis by blast
qed

text \<open>
  The claim C10 as stated fails beyond that range.  After \<^verbatim>\<open>addTokens(2**53, 1)\<close> and
  \<^verbatim>\<open>addTokens(0, 1)\<close> on the reset counter, \<open>totalTokens\<close> is \<open>2\<^sup>5\<^sup>3\<close>, since \<open>2\<^sup>5\<^sup>3 + 1\<close> is no
  double and rounds to \<open>2\<^sup>5\<^sup>3\<close> both times, while \<open>inputTokens\<close> is \<open>2\<^sup>5\<^sup>3\<close> and \<open>outputTokens\<close>
  is \<open>2\<close>, whose sum \<open>2\<^sup>5\<^sup>3 + 2\<close> is a double.  And \<open>requestCount\<close>, which has counted \<open>2\<^sup>5\<^sup>3\<close>
  calls, is not incremented by the next call.
\<close>

theorem token_counter_counterexample:
  "totalTokens (stats (counter_run (resetStats 0 fresh_counter) rounding_calls)) = 2 ^ 53
   \<and> inputTokens (stats (counter_run (resetStats 0 fresh_counter) rounding_calls)) = 2 ^ 53
   \<and> outputTokens (stats (counter_run (resetStats 0 fresh_counter) rounding_calls)) = 2
   \<and> js_add (inputTokens (stats (counter_run (resetStats 0 fresh_counter) rounding_calls)))
            (outputTokens (stats (counter_run (resetStats 0 fresh_counter) rounding_calls)))
       = 2 ^ 53 + 2
   \<and> requestCount (stats (counter_run (resetStats 0 fresh_counter)
        (replicate (2 ^ 53) (AddTokens 0 0)))) = 2 ^ 53
   \<and> requestCount (stats (counter_run (resetStats 0 fresh_counter)
        (replicate (2 ^ 53 + 1) (AddTokens 0 0)))) = 2 ^ 53"
proof -
  have r: "round_double (2 ^ 53 + 1) = 2 ^ 53" "round_double (2 ^ 53 + 2) = 2 ^ 53 + 2"
    "round_double 0 = 0" "round_double 1 = 1" "round_double 2 = 2"
    "round_double (2 ^ 53) = 2 ^ 53"
    by (simp_all add: round_double_def excess_one excess_small Let_def)
  note r = r[simplified]
  have s: "stats (counter_run (resetStats 0 fresh_counter) rounding_calls) =
             \<lparr>inputTokens = 2 ^ 53, outputTokens = 2, totalTokens = 2 ^ 53, requestCount = 2,
              lastReset = 0\<rparr>"
    by (simp add: rounding_calls_def counter_run_Cons counter_run_Nil addTokens_def
          resetStats_def saveStats_def fresh_counter_def js_add_def r)
  have z: "requestCount (stats (resetStats 0 fresh_counter)) = 0"
    by (simp add: resetStats_def saveStats_def)
  have n: "requestCount (stats (counter_run (resetStats 0 fresh_counter)
        (replicate (2 ^ 53) (AddTokens 0 0)))) = 2 ^ 53"
    using requestCount_counts[OF z, of "2 ^ 53"] by simp
  have "replicate (2 ^ 53 + 1) (AddTokens 0 0) = replicate (2 ^ 53) (AddTokens 0 0) @ [AddTokens 0 0]"
    by (rule replicate_snoc)
  then have m: "requestCount (stats (counter_run (resetStats 0 fresh_counter)
        (replicate (2 ^ 53 + 1) (AddTokens 0 0)))) = 2 ^ 53"
    by (simp only: counter_run_snoc counter_step.simps requestCount_addTokens n)
       (simp add: js_add_def r)
  from s n m show ?thesis
    by (simp add: js_add_def r)
qed

theorem token_counter_invariant_witness:
  "in_exact_range (resetStats 0 fresh_counter) small_calls
   \<and> totalTokens (stats (counter_run (resetStats 0 fresh_counter) small_calls)) =
       inputTokens (stats (counter_run (resetStats 0 fresh_counter) small_calls))
       + outputTokens (stats (counter_run (resetStats 0 fresh_counter) small_calls))
   \<and> totalTokens (stats (counter_run (resetStats 0 fresh_counter) small_calls)) = 7
   \<and> requestCount (stats (addTokens 12 5 (resetStats 0 fresh_counter))) = 1"
proof -
  have h: "in_exact_range (resetStats 0 fresh_counter) small_calls"
    by code_simp
  have g: "exact_range (requestCount (stats (resetStats 0 fresh_counter)) + 1)"
    by code_simp
  have v: "totalTokens (stats (counter_run (resetStats 0 fresh_counter) small_calls)) = 7"
    by code_simp
  note a = token_counter_invariant[where ?t0.0 = 0 and tc = fresh_counter and ops = small_calls
      and tc' = "resetStats 0 fresh_counter" and i = 12 and out = 5 and ?t1.0 = 7]
  note a1 = a[THEN conjunct1, THEN mp, OF h, THEN conjunct1]
  note a2 = a[THEN conjunct2, THEN conjunct1, THEN mp, OF g]
  note a3 = a[THEN conjunct2, THEN conjunct2, THEN conjunct2, THEN conjunct2, THEN conjunct2]
  from a2 have 2: "requestCount (stats (addTokens 12 5 (resetStats 0 fresh_counter))) = 1"
    by (simp add: resetStats_def saveStats_def)
  from h a1 v 2 show ?thesis by blast
qed

section \<open>Properties of the context analyzer\<close>

text \<open>
  Claim C8.  For a document with language id \<open>python\<close> and the lines
  \<^verbatim>\<open>def add(a, b):\<close>, \<^verbatim>\<open>    total = a + b\<close> and four spaces, with the cursor at line 2,
  column 4, \<^verbatim>\<open>analyzeContext\<close> returns an enclosing function scope with name \<open>add\<close> and
  the parameter names \<open>a\<close> and \<open>b\<close>, the line kind \<open>general\<close>, and an indentation of four
  spaces.  The theorem gives the whole context that the analyzer returns.
\<close>

theorem analyze_python_scenario:
  "analyzeContext
     \<lparr>fsPath = path, languageId = ''python'',
      lines = [''def add(a, b):'', ''    total = a + b'', ''    '']\<rparr>
     \<lparr>line = 2, character = 4\<rparr>
   = Inr \<lparr>language = ''python'', currentLine = ''    '',
        previousLines = [''def add(a, b):'', ''    total = a + b''],
        nextLines = [],
        functionScope =
          Some \<lparr>name = ''add'', parameters = [''a'', ''b''], returnType = None,
              startLine = 0, isAsync = False\<rparr>,
        classScope = None, importStatements = [],
        variables =
          [\<lparr>varName = Some ''total'', varType = Some ''a + b'',
              varValue = None, varLine = 1, scope = global\<rparr>],
        codeType = general, indentation = ''    ''\<rparr>"
  by code_simp

section \<open>Properties of the completion pipeline\<close>

subsection \<open>Single steps\<close>

lemma getCompletionSuggestions_hit:
  assumes "buildCacheKey doc pos = Inr K" "cache w K = Some e" "now w - timestamp e < 30000"
  shows "getCompletionSuggestions doc pos tok w =
           w\<lparr>nextId := Suc (nextId w),
             promises := (promises w)(nextId w \<mapsto> Resolved [cacheText e])\<rparr>"
  using assms
  by (simp add: getCompletionSuggestions_def cacheLookup_def resolve_def CACHE_DURATION_def Let_def)

lemma getCompletionSuggestions_miss:
  assumes "buildCacheKey doc pos = Inr K" "cacheLookup w K = None"
  shows "getCompletionSuggestions doc pos tok w =
           w\<lparr>nextId := Suc (nextId w),
             timers := (case map_of (debounceMap w) K of
                          Some old \<Rightarrow> filter (\<lambda>t. timerId t \<noteq> old) (timers w)
                        | None \<Rightarrow> timers w)
                       @ [\<lparr>timerId = nextId w, due = now w + 500,
                           timerJob = \<lparr>jobKey = K, jobDoc = doc, jobPos = pos, jobToken = tok\<rparr>\<rparr>],
             debounceMap := AList.update K (nextId w) (debounceMap w)\<rparr>"
  using assms
  by (auto simp add: getCompletionSuggestions_def cacheLookup_def clearTimeout_def
        DEBOUNCE_DELAY_def Let_def split: option.splits if_splits)

lemma respond_found:
  assumes "find (\<lambda>c. callId c = cid) (calls w) = Some c"
  shows "respond cid r w =
           responseArrived c r (w\<lparr>calls := filter (\<lambda>c. callId c \<noteq> cid) (calls w)\<rparr>)"
  using assms by (simp add: respond_def)

lemma countTokens_frame:
  "cache (countTokens r w) = cache w" "now (countTokens r w) = now w"
  "promises (countTokens r w) = promises w" "debounceMap (countTokens r w) = debounceMap w"
  "timers (countTokens r w) = timers w" "calls (countTokens r w) = calls w"
  "backendLog (countTokens r w) = backendLog w" "cancelled (countTokens r w) = cancelled w"
  "config (countTokens r w) = config w" "nextId (countTokens r w) = nextId w"
  by (simp_all add: countTokens_def split: option.splits)

lemma cache_after_write:
  assumes "success r" "trim (respText r) \<noteq> []"
  shows "cache (responseArrived c r w) k =
           (if k = jobKey (callJob c)
            then Some \<lparr>cacheText = respText r, timestamp = now w,
                       cacheContext = reqContext (callRequest c)\<rparr>
            else case cache w k of
                   None \<Rightarrow> None
                 | Some v \<Rightarrow> if now w - timestamp v > 30000 then None else Some v)"
  using assms
  by (simp add: responseArrived_def debounceDelete_def resolve_def cleanCache_def Let_def
        countTokens_frame CACHE_DURATION_def cong: option.case_cong)

lemma cacheLookup_expired:
  assumes "cache w K = Some e" "now w - timestamp e \<ge> 30000"
  shows "cacheLookup w K = None"
  using assms by (simp add: cacheLookup_def CACHE_DURATION_def)

lemma getCompletionSuggestions_expired:
  assumes "buildCacheKey doc pos = Inr K" "cache w K = Some e" "now w - timestamp e \<ge> 30000"
  shows "getCompletionSuggestions doc pos tok w =
          (getCompletionSuggestions doc pos tok (w\<lparr>cache := (cache w)(K := None)\<rparr>))
            \<lparr>cache := cache w\<rparr>"
proof -
  have a: "cacheLookup w K = None" using assms by (simp add: cacheLookup_expired)
  have b: "cacheLookup (w\<lparr>cache := (cache w)(K := None)\<rparr>) K = None"
    by (simp add: cacheLookup_def)
  show ?thesis
    by (simp add: getCompletionSuggestions_miss[OF assms(1) a]
          getCompletionSuggestions_miss[OF assms(1) b] cong: option.case_cong)
qed

subsection \<open>The example states are states of the provider\<close>

lemma key_total: "buildCacheKey scenario_doc at_total = Inr key_total"
  by code_simp

lemma request_total: "buildCompletionRequest scenario_doc at_total = Inr request_total"
  by code_simp

lemma prompt_total: "trim (prompt request_total) \<noteq> []"
  by code_simp

lemma answer_text:
  "trim (respText answer) \<noteq> []" "trim (respText answer_without_usage) \<noteq> []"
  "trim '' = a + b'' \<noteq> []"
  by code_simp+

lemma start_scheduled: "run (start defaultConfig) [Request scenario_doc at_total 0] = scheduled"
  by (simp add: run_def start_def provideCompletionItems_def getCompletionSuggestions_def
        key_total cacheLookup_def defaultConfig_def Let_def DEBOUNCE_DELAY_def scheduled_def
        timer_total_def job_total_def loadStats_def resetStats_def saveStats_def zero_stats_def)

lemma scheduled_issued: "run scheduled [Tick 500, Fire 0] = issued"
  by (simp add: run_def scheduled_def issued_def fire_def timerCallback_def timer_total_def
        job_total_def liveDocument_def request_total prompt_total call_total_def)

lemma world_eqI:
  fixes w v :: world
  assumes "config w = config v" "now w = now v" "\<And>f. documents w f = documents v f"
    "cancelled w = cancelled v" "\<And>k. cache w k = cache v k" "debounceMap w = debounceMap v" "timers w = timers v"
    "calls w = calls v" "backendLog w = backendLog v" "tokenCounter w = tokenCounter v"
    "\<And>p. promises w p = promises v p" "nextId w = nextId v"
  shows "w = v"
proof -
  have "cache w = cache v" "promises w = promises v" "documents w = documents v"
    using assms by auto
  then show ?thesis using assms by simp
qed

lemma issued_cached: "run issued [Respond 0 answer] = cached"
  by (rule world_eqI)
     (simp_all add: run_def issued_def cached_def respond_def responseArrived_def call_total_def
        job_total_def answer_text countTokens_def answer_def addTokens_def saveStats_def
        zero_stats_def counted_stats_def cleanCache_def resolve_def debounceDelete_def
        entry_total_def Let_def CACHE_DURATION_def js_add_exact exact_range_def)

subsection \<open>The cache\<close>

text \<open>
  Claim C6.  A cache entry written at time \<open>T\<close> under the key \<open>K\<close> is returned verbatim, with
  no backend call, by a lookup of \<open>K\<close> at any time \<open>T'\<close> with \<open>T' - T < 30000\<close>: the request
  only settles its promise with the cached text.  For \<open>T' - T \<ge> 30000\<close> the entry is treated
  as absent, and a fresh debounce cycle is started: the request does what it does without
  the entry, it sets a timer for \<open>K\<close> and leaves its promise open.  Every successful write
  stamps its entry with the time of the write and purges the entries that are older than
  the time to live.
\<close>

theorem cache_time_to_live:
  "(buildCacheKey doc pos = Inr K \<and> cache w K = Some e \<and> now w - timestamp e < 30000 \<longrightarrow>
      getCompletionSuggestions doc pos tok w =
        w\<lparr>nextId := Suc (nextId w),
          promises := (promises w)(nextId w \<mapsto> Resolved [cacheText e])\<rparr>)
   \<and> (buildCacheKey doc' pos' = Inr K' \<and> cache w' K' = Some e' \<and> now w' - timestamp e' \<ge> 30000 \<longrightarrow>
      getCompletionSuggestions doc' pos' tok' w' =
        (getCompletionSuggestions doc' pos' tok' (w'\<lparr>cache := (cache w')(K' := None)\<rparr>))
          \<lparr>cache := cache w'\<rparr>
      \<and> promises (getCompletionSuggestions doc' pos' tok' w') = promises w'
      \<and> backendLog (getCompletionSuggestions doc' pos' tok' w') = backendLog w'
      \<and> \<lparr>timerId = nextId w', due = now w' + 500,
          timerJob = \<lparr>jobKey = K', jobDoc = doc', jobPos = pos', jobToken = tok'\<rparr>\<rparr>
          \<in> set (timers (getCompletionSuggestions doc' pos' tok' w'))
      \<and> map_of (debounceMap (getCompletionSuggestions doc' pos' tok' w')) K' = Some (nextId w'))
   \<and> (find (\<lambda>c. callId c = cid) (calls v) = Some c \<and> success r \<and> trim (respText r) \<noteq> [] \<longrightarrow>
        (\<forall>k. cache (respond cid r v) k =
               (if k = jobKey (callJob c)
                then Some \<lparr>cacheText = respText r, timestamp = now v,
                           cacheContext = reqContext (callRequest c)\<rparr>
                else case cache v k of
                       None \<Rightarrow> None
                     | Some x \<Rightarrow> if now v - timestamp x > 30000 then None else Some x)))"
proof (intro conjI impI allI)
  assume "buildCacheKey doc pos = Inr K \<and> cache w K = Some e \<and> now w - timestamp e < 30000"
  then show "getCompletionSuggestions doc pos tok w =
        w\<lparr>nextId := Suc (nextId w),
          promises := (promises w)(nextId w \<mapsto> Resolved [cacheText e])\<rparr>"
    by (simp add: getCompletionSuggestions_hit)
next
  assume h: "buildCacheKey doc' pos' = Inr K' \<and> cache w' K' = Some e'
             \<and> 30000 \<le> now w' - timestamp e'"
  then have miss: "cacheLookup w' K' = None" by (simp add: cacheLookup_expired)
  from h show "getCompletionSuggestions doc' pos' tok' w' =
        (getCompletionSuggestions doc' pos' tok' (w'\<lparr>cache := (cache w')(K' := None)\<rparr>))
          \<lparr>cache := cache w'\<rparr>"
    by (simp add: getCompletionSuggestions_expired)
  from h miss show "promises (getCompletionSuggestions doc' pos' tok' w') = promises w'"
    by (simp add: getCompletionSuggestions_miss)
  from h miss show "backendLog (getCompletionSuggestions doc' pos' tok' w') = backendLog w'"
    by (simp add: getCompletionSuggestions_miss)
  from h miss show "\<lparr>timerId = nextId w', due = now w' + 500,
          timerJob = \<lparr>jobKey = K', jobDoc = doc', jobPos = pos', jobToken = tok'\<rparr>\<rparr>
          \<in> set (timers (getCompletionSuggestions doc' pos' tok' w'))"
    by (simp add: getCompletionSuggestions_miss)
  from h miss show
    "map_of (debounceMap (getCompletionSuggestions doc' pos' tok' w')) K' = Some (nextId w')"
    by (simp add: getCompletionSuggestions_miss update_conv')
next
  fix k
  assume "find (\<lambda>c. callId c = cid) (calls v) = Some c \<and> success r \<and> trim (respText r) \<noteq> []"
  then show "cache (respond cid r v) k =
               (if k = jobKey (callJob c)
                then Some \<lparr>cacheText = respText r, timestamp = now v,
                           cacheContext = reqContext (callRequest c)\<rparr>
                else case cache v k of
                       None \<Rightarrow> None
                     | Some x \<Rightarrow> if now v - timestamp x > 30000 then None else Some x)"
    by (simp add: respond_found cache_after_write cong: option.case_cong)
qed

theorem cache_time_to_live_witness:
  "getCompletionSuggestions scenario_doc at_total 1 (cached\<lparr>now := 30499\<rparr>)
     = cached\<lparr>now := 30499, nextId := 2,
              promises := (promises cached)(1 \<mapsto> Resolved ['' = a + b''])\<rparr>
   \<and> \<lparr>timerId = 1, due = 31000,
       timerJob = \<lparr>jobKey = key_total, jobDoc = scenario_doc, jobPos = at_total, jobToken = 1\<rparr>\<rparr>
       \<in> set (timers (getCompletionSuggestions scenario_doc at_total 1 (cached\<lparr>now := 30500\<rparr>)))
   \<and> promises (getCompletionSuggestions scenario_doc at_total 1 (cached\<lparr>now := 30500\<rparr>)) 1 = None
   \<and> cache (respond 0 answer (issued\<lparr>cache := [''old'' \<mapsto> entry_total], now := 30501\<rparr>)) ''old''
       = None
   \<and> cache (respond 0 answer issued) key_total = Some entry_total"
proof -
  have h1: "buildCacheKey scenario_doc at_total = Inr key_total
            \<and> cache (cached\<lparr>now := 30499\<rparr>) key_total = Some entry_total
            \<and> now (cached\<lparr>now := 30499\<rparr>) - timestamp entry_total < 30000"
    by (simp add: key_total cached_def entry_total_def)
  have h2: "buildCacheKey scenario_doc at_total = Inr key_total
            \<and> cache (cached\<lparr>now := 30500\<rparr>) key_total = Some entry_total
            \<and> now (cached\<lparr>now := 30500\<rparr>) - timestamp entry_total \<ge> 30000"
    by (simp add: key_total cached_def entry_total_def)
  have h3: "find (\<lambda>c. callId c = 0) (calls issued) = Some call_total \<and> success answer
            \<and> trim (respText answer) \<noteq> []"
    by (simp add: issued_def call_total_def answer_text) (simp add: answer_def)
  have h4: "find (\<lambda>c. callId c = 0)
              (calls (issued\<lparr>cache := [''old'' \<mapsto> entry_total], now := 30501\<rparr>)) = Some call_total
            \<and> success answer \<and> trim (respText answer) \<noteq> []"
    by (simp add: issued_def call_total_def answer_text) (simp add: answer_def)
  have v: "nextId cached = 1" "promises cached 1 = None" "now issued = 500"
    "jobKey (callJob call_total) = key_total" "''old'' \<noteq> key_total"
    "\<lparr>cacheText = respText answer, timestamp = 500,
      cacheContext = reqContext (callRequest call_total)\<rparr> = entry_total"
    "timestamp entry_total = 500"
    by (simp_all add: cached_def issued_def call_total_def job_total_def key_total_def
          entry_total_def answer_def)
  note a = cache_time_to_live[where doc = scenario_doc and pos = at_total and K = key_total
      and w = "cached\<lparr>now := 30499\<rparr>" and e = entry_total and tok = 1
      and doc' = scenario_doc and pos' = at_total and K' = key_total
      and w' = "cached\<lparr>now := 30500\<rparr>" and e' = entry_total and tok' = 1
      and cid = 0 and v = issued and c = call_total and r = answer]
  note b = cache_time_to_live[where cid = 0
      and v = "issued\<lparr>cache := [''old'' \<mapsto> entry_total], now := 30501\<rparr>"
      and c = call_total and r = answer]
  note a1 = a[THEN conjunct1, THEN mp, OF h1]
  note a2 = a[THEN conjunct2, THEN conjunct1, THEN mp, OF h2]
  note a3 = a[THEN conjunct2, THEN conjunct2, THEN mp, OF h3, THEN spec, of key_total]
  note b3 = b[THEN conjunct2, THEN conjunct2, THEN mp, OF h4, THEN spec, of "''old''"]
  from a1 have 1: "getCompletionSuggestions scenario_doc at_total 1 (cached\<lparr>now := 30499\<rparr>)
     = cached\<lparr>now := 30499, nextId := 2,
              promises := (promises cached)(1 \<mapsto> Resolved ['' = a + b''])\<rparr>"
    by (simp add: v entry_total_def)
  note a2p = a2[THEN conjunct2, THEN conjunct1]
  note a2t = a2[THEN conjunct2, THEN conjunct2, THEN conjunct2, THEN conjunct1]
  from a2t have 2: "\<lparr>timerId = 1, due = 31000,
       timerJob = \<lparr>jobKey = key_total, jobDoc = scenario_doc, jobPos = at_total, jobToken = 1\<rparr>\<rparr>
       \<in> set (timers (getCompletionSuggestions scenario_doc at_total 1 (cached\<lparr>now := 30500\<rparr>)))"
    by (simp add: v)
  from a2p v(2) have 3:
    "promises (getCompletionSuggestions scenario_doc at_total 1 (cached\<lparr>now := 30500\<rparr>)) 1 = None"
    by simp
  from b3 have 4:
    "cache (respond 0 answer (issued\<lparr>cache := [''old'' \<mapsto> entry_total], now := 30501\<rparr>)) ''old'' = None"
    by (simp add: v)
  from a3 have 5: "cache (respond 0 answer issued) key_total = Some entry_total"
    by (simp add: v)
  from 1 2 3 4 5 show ?thesis by blast
qed

lemma run_Nil: "run w [] = w" and run_Cons: "run w (e # es) = run (step w e) es"
  by (simp_all add: run_def)

lemma run_append: "run w (xs @ ys) = run (run w xs) ys"
  by (simp add: run_def)

lemma fire_found:
  assumes "find (\<lambda>t. timerId t = tid) (timers w) = Some t" "due t \<le> now w"
  shows "fire tid w =
           timerCallback tid (timerJob t)
             (w\<lparr>timers := filter (\<lambda>t. timerId t \<noteq> tid) (timers w)\<rparr>)"
  using assms by (simp add: fire_def)

lemma timerCallback_cancelled:
  assumes "jobToken j \<in> cancelled w"
  shows "timerCallback p j w =
           w\<lparr>promises := (promises w)(p \<mapsto> Resolved []),
             debounceMap := AList.delete (jobKey j) (debounceMap w)\<rparr>"
  using assms by (simp add: timerCallback_def resolve_def debounceDelete_def)

lemma countTokens_ignores_signal:
  "countTokens r (v\<lparr>cancelled := X\<rparr>) = (countTokens r v)\<lparr>cancelled := X\<rparr>"
  by (simp add: countTokens_def split: option.splits)

lemma cleanCache_ignores_signal:
  "cleanCache (v\<lparr>cancelled := X\<rparr>) = (cleanCache v)\<lparr>cancelled := X\<rparr>"
  by (simp add: cleanCache_def cong: option.case_cong)

lemma responseArrived_ignores_signal:
  "responseArrived c r (v\<lparr>cancelled := X\<rparr>) = (responseArrived c r v)\<lparr>cancelled := X\<rparr>"
proof (cases "success r \<and> trim (respText r) \<noteq> []")
  case True
  have "cleanCache
          (countTokens r v
           \<lparr>cancelled := X,
              cache := (cache (countTokens r v))(jobKey (callJob c) \<mapsto>
                 \<lparr>cacheText = respText r, timestamp = now (countTokens r v),
                  cacheContext = reqContext (callRequest c)\<rparr>)\<rparr>)
        = (cleanCache
          (countTokens r v
           \<lparr>cache := (cache (countTokens r v))(jobKey (callJob c) \<mapsto>
                 \<lparr>cacheText = respText r, timestamp = now (countTokens r v),
                  cacheContext = reqContext (callRequest c)\<rparr>)\<rparr>))\<lparr>cancelled := X\<rparr>"
    by (simp add: cleanCache_def cong: option.case_cong)
  with True show ?thesis
    by (simp add: responseArrived_def countTokens_ignores_signal resolve_def debounceDelete_def
          Let_def)
next
  case False
  then have "responseArrived c r u = debounceDelete (jobKey (callJob c)) (resolve (callId c) [] u)"
    for u
    by (simp only: responseArrived_def if_False)
  then show ?thesis
    by (simp add: resolve_def debounceDelete_def)
qed

lemma respond_ignores_signal:
  "respond cid r (v\<lparr>cancelled := X\<rparr>) = (respond cid r v)\<lparr>cancelled := X\<rparr>"
proof (cases "find (\<lambda>c. callId c = cid) (calls v)")
  case None
  then show ?thesis by (simp add: respond_def)
next
  case (Some c)
  let ?f = "filter (\<lambda>c. callId c \<noteq> cid) (calls v)"
  have comm: "v\<lparr>cancelled := X, calls := ?f\<rparr> = v\<lparr>calls := ?f, cancelled := X\<rparr>"
    by simp
  have "respond cid r (v\<lparr>cancelled := X\<rparr>)
        = responseArrived c r (v\<lparr>cancelled := X, calls := ?f\<rparr>)"
    using Some by (simp add: respond_def)
  also have "\<dots> = (responseArrived c r (v\<lparr>calls := ?f\<rparr>))\<lparr>cancelled := X\<rparr>"
    by (simp only: comm responseArrived_ignores_signal)
  also have "\<dots> = (respond cid r v)\<lparr>cancelled := X\<rparr>"
    using Some by (simp add: respond_def)
  finally show ?thesis .
qed

lemma promise_after_response:
  "promises (responseArrived c r w) (callId c) =
     Some (Resolved (if success r \<and> trim (respText r) \<noteq> [] then [respText r] else []))"
  by (simp add: responseArrived_def resolve_def debounceDelete_def cleanCache_def Let_def
        countTokens_frame)

lemma find_callId:
  assumes "find (\<lambda>c. callId c = cid) cs = Some c"
  shows "callId c = cid"
  using assms by (auto simp: find_Some_iff)

subsection \<open>Cancellation\<close>

text \<open>
  Claim C2, as amended.  The caller's signal is consulted when the scheduled execution fires,
  before the backend call: if it is set at that moment, the execution only removes its timer
  and its entry of the debounce table and resolves its promise with the empty sequence, so it
  issues no backend call, writes nothing to the cache and does not invoke the token-usage
  sink.  Once the backend call has been issued, the signal is not consulted again: the arrival
  of the response does the same whatever signals are set, and a successful response with
  text that is not blank is written to the cache and resolves the promise with that text,
  also when the caller's signal has been set meanwhile.
\<close>

theorem cancellation_checked_before_backend_call:
  "(find (\<lambda>t. timerId t = tid) (timers w) = Some t \<and> due t \<le> now w
      \<and> jobToken (timerJob t) \<in> cancelled w \<longrightarrow>
      fire tid w = w\<lparr>timers := filter (\<lambda>t. timerId t \<noteq> tid) (timers w),
                    promises := (promises w)(tid \<mapsto> Resolved []),
                    debounceMap := AList.delete (jobKey (timerJob t)) (debounceMap w)\<rparr>)
   \<and> respond cid r (v\<lparr>cancelled := X\<rparr>) = (respond cid r v)\<lparr>cancelled := X\<rparr>
   \<and> (find (\<lambda>c. callId c = cid') (calls v') = Some c \<and> jobToken (callJob c) \<in> cancelled v'
       \<and> success r' \<and> trim (respText r') \<noteq> [] \<longrightarrow>
        promises (respond cid' r' v') cid' = Some (Resolved [respText r'])
        \<and> cache (respond cid' r' v') (jobKey (callJob c)) =
            Some \<lparr>cacheText = respText r', timestamp = now v',
                  cacheContext = reqContext (callRequest c)\<rparr>)"
proof (intro conjI impI)
  assume h: "find (\<lambda>t. timerId t = tid) (timers w) = Some t \<and> due t \<le> now w
      \<and> jobToken (timerJob t) \<in> cancelled w"
  then show "fire tid w = w\<lparr>timers := filter (\<lambda>t. timerId t \<noteq> tid) (timers w),
                    promises := (promises w)(tid \<mapsto> Resolved []),
                    debounceMap := AList.delete (jobKey (timerJob t)) (debounceMap w)\<rparr>"
    by (simp add: fire_found timerCallback_cancelled)
next
  show "respond cid r (v\<lparr>cancelled := X\<rparr>) = (respond cid r v)\<lparr>cancelled := X\<rparr>"
    by (rule respond_ignores_signal)
next
  assume h: "find (\<lambda>c. callId c = cid') (calls v') = Some c \<and> jobToken (callJob c) \<in> cancelled v'
       \<and> success r' \<and> trim (respText r') \<noteq> []"
  then have id: "callId c = cid'" by (blast dest: find_callId)
  from h show "promises (respond cid' r' v') cid' = Some (Resolved [respText r'])"
    using promise_after_response[of c r'] by (simp add: respond_found id)
  from h show "cache (respond cid' r' v') (jobKey (callJob c)) =
            Some \<lparr>cacheText = respText r', timestamp = now v',
                  cacheContext = reqContext (callRequest c)\<rparr>"
    by (simp add: respond_found cache_after_write)
qed

text \<open>
  The claim C2 as stated fails: a request is made, its execution fires and issues the backend
  call, the caller's signal is set, and the successful answer arrives.  The answer is written
  to the cache, the token-usage sink is invoked, and the promise resolves with the answer.
\<close>

theorem cancellation_after_issue_counterexample:
  "0 \<in> cancelled (run (start defaultConfig)
            [Request scenario_doc at_total 0, Tick 500, Fire 0, Cancel 0])
   \<and> calls (run (start defaultConfig)
            [Request scenario_doc at_total 0, Tick 500, Fire 0, Cancel 0]) = [call_total]
   \<and> cache (run (start defaultConfig)
            [Request scenario_doc at_total 0, Tick 500, Fire 0, Cancel 0, Respond 0 answer])
        key_total = Some entry_total
   \<and> stats (tokenCounter (run (start defaultConfig)
            [Request scenario_doc at_total 0, Tick 500, Fire 0, Cancel 0, Respond 0 answer]))
        = counted_stats
   \<and> promises (run (start defaultConfig)
            [Request scenario_doc at_total 0, Tick 500, Fire 0, Cancel 0, Respond 0 answer]) 0
        = Some (Resolved ['' = a + b''])"
proof -
  have "run (start defaultConfig)
          ([Request scenario_doc at_total 0] @ [Tick 500, Fire 0] @ [Cancel 0])
        = run (run (run (start defaultConfig) [Request scenario_doc at_total 0])
                 [Tick 500, Fire 0]) [Cancel 0]"
    by (simp only: run_append)
  also have "\<dots> = run issued [Cancel 0]"
    by (simp only: start_scheduled scheduled_issued)
  also have "\<dots> = issued\<lparr>cancelled := {0}\<rparr>"
    by (simp add: run_def issued_def)
  finally have a:
    "run (start defaultConfig) [Request scenario_doc at_total 0, Tick 500, Fire 0, Cancel 0]
     = issued\<lparr>cancelled := {0}\<rparr>"
    by simp
  have "run (start defaultConfig)
          ([Request scenario_doc at_total 0, Tick 500, Fire 0, Cancel 0] @ [Respond 0 answer])
        = run (issued\<lparr>cancelled := {0}\<rparr>) [Respond 0 answer]"
    by (simp only: run_append a)
  also have "\<dots> = (run issued [Respond 0 answer])\<lparr>cancelled := {0}\<rparr>"
    by (simp only: run_Cons run_Nil step.simps respond_ignores_signal)
  finally have b:
    "run (start defaultConfig)
       [Request scenario_doc at_total 0, Tick 500, Fire 0, Cancel 0, Respond 0 answer]
     = cached\<lparr>cancelled := {0}\<rparr>"
    by (simp add: issued_cached)
  have c: "0 \<in> cancelled (issued\<lparr>cancelled := {0}\<rparr>)"
    "calls (issued\<lparr>cancelled := {0}\<rparr>) = [call_total]"
    "cache (cached\<lparr>cancelled := {0}\<rparr>) key_total = Some entry_total"
    "stats (tokenCounter (cached\<lparr>cancelled := {0}\<rparr>)) = counted_stats"
    "promises (cached\<lparr>cancelled := {0}\<rparr>) 0 = Some (Resolved ['' = a + b''])"
    by (simp_all add: issued_def cached_def)
  show ?thesis
    unfolding a b by (intro conjI c)
qed

theorem cancellation_checked_before_backend_call_witness:
  "fire 0 (scheduled\<lparr>now := 500, cancelled := {0}\<rparr>)
     = scheduled\<lparr>now := 500, cancelled := {0}, timers := [], promises := [0 \<mapsto> Resolved []],
                 debounceMap := []\<rparr>
   \<and> respond 0 answer (issued\<lparr>cancelled := {0}\<rparr>) = (respond 0 answer issued)\<lparr>cancelled := {0}\<rparr>
   \<and> promises (respond 0 answer (issued\<lparr>cancelled := {0}\<rparr>)) 0 = Some (Resolved ['' = a + b''])
   \<and> cache (respond 0 answer (issued\<lparr>cancelled := {0}\<rparr>)) key_total = Some entry_total"
proof -
  let ?w = "scheduled\<lparr>now := 500, cancelled := {0}\<rparr>"
  let ?v = "issued\<lparr>cancelled := {0}\<rparr>"
  have h1: "find (\<lambda>t. timerId t = 0) (timers ?w) = Some timer_total \<and> due timer_total \<le> now ?w
            \<and> jobToken (timerJob timer_total) \<in> cancelled ?w"
    by (simp add: scheduled_def timer_total_def job_total_def)
  have h3: "find (\<lambda>c. callId c = 0) (calls ?v) = Some call_total
            \<and> jobToken (callJob call_total) \<in> cancelled ?v
            \<and> success answer \<and> trim (respText answer) \<noteq> []"
    by (simp add: issued_def call_total_def job_total_def answer_text) (simp add: answer_def)
  note a = cancellation_checked_before_backend_call[where tid = 0 and w = ?w and t = timer_total
      and cid = 0 and r = answer and v = issued and X = "{0}"
      and cid' = 0 and v' = ?v and c = call_total and r' = answer]
  note a1 = a[THEN conjunct1, THEN mp, OF h1]
  note a2 = a[THEN conjunct2, THEN conjunct1]
  note a3 = a[THEN conjunct2, THEN conjunct2, THEN mp, OF h3]
  have v: "jobKey (timerJob timer_total) = key_total" "jobKey (callJob call_total) = key_total"
    "respText answer = '' = a + b''"
    "\<lparr>cacheText = '' = a + b'', timestamp = now issued,
      cacheContext = reqContext (callRequest call_total)\<rparr> = entry_total"
    by (simp_all add: timer_total_def call_total_def job_total_def answer_def entry_total_def
          issued_def)
  from a1 have 1: "fire 0 ?w
     = scheduled\<lparr>now := 500, cancelled := {0}, timers := [], promises := [0 \<mapsto> Resolved []],
                 debounceMap := []\<rparr>"
    by (simp add: v) (simp add: scheduled_def timer_total_def)
  from a3 have 3: "promises (respond 0 answer ?v) 0 = Some (Resolved ['' = a + b''])"
    and 4: "cache (respond 0 answer ?v) key_total = Some entry_total"
    by (simp_all add: v)
  from 1 a2 3 4 show ?thesis by blast
qed

subsection \<open>Token usage\<close>

lemma tokenCounter_clearTimeouts: "tokenCounter (fold clearTimeout ids w) = tokenCounter w"
  by (induction ids arbitrary: w) (simp_all add: clearTimeout_def)

lemma tokenCounter_getCompletionSuggestions:
  "tokenCounter (getCompletionSuggestions doc pos tok w) = tokenCounter w"
  by (simp add: getCompletionSuggestions_def resolve_def clearTimeout_def Let_def
        split: sum.splits option.splits)

lemma tokenCounter_provideCompletionItems:
  "tokenCounter (provideCompletionItems doc pos tok w) = tokenCounter w"
  by (simp add: provideCompletionItems_def resolve_def Let_def
        tokenCounter_getCompletionSuggestions split: option.splits outcome.splits)

lemma tokenCounter_timerCallback: "tokenCounter (timerCallback p j w) = tokenCounter w"
  by (simp add: timerCallback_def resolve_def debounceDelete_def split: sum.splits)

lemma tokenCounter_fire: "tokenCounter (fire tid w) = tokenCounter w"
  by (simp add: fire_def tokenCounter_timerCallback split: option.splits)

lemma tokenCounter_backendThrows: "tokenCounter (backendThrows cid w) = tokenCounter w"
  by (simp add: backendThrows_def resolve_def debounceDelete_def split: option.splits)

lemma tokenCounter_step:
  assumes "\<forall>cid r. ev \<noteq> Respond cid r"
  shows "tokenCounter (step v ev) = tokenCounter v"
  using assms
  by (cases ev)
     (simp_all add: tokenCounter_provideCompletionItems tokenCounter_fire
        tokenCounter_backendThrows clearCache_def tokenCounter_clearTimeouts)

lemma responseArrived_ok:
  assumes "success r" "trim (respText r) \<noteq> []"
  shows "responseArrived c r w =
           debounceDelete (jobKey (callJob c))
             (resolve (callId c) [respText r]
                (cleanCache ((countTokens r w)\<lparr>cache := (cache w)(jobKey (callJob c) \<mapsto>
                   \<lparr>cacheText = respText r, timestamp = now w,
                    cacheContext = reqContext (callRequest c)\<rparr>)\<rparr>)))"
  using assms by (simp add: responseArrived_def Let_def countTokens_frame)

lemma responseArrived_bad:
  assumes "\<not> (success r \<and> trim (respText r) \<noteq> [])"
  shows "responseArrived c r w = debounceDelete (jobKey (callJob c)) (resolve (callId c) [] w)"
  using assms by (simp only: responseArrived_def if_False)

lemma tokenCounter_responseArrived:
  "tokenCounter (responseArrived c r w) =
     (if success r \<and> trim (respText r) \<noteq> [] then tokenCounter (countTokens r w)
      else tokenCounter w)"
proof (cases "success r \<and> trim (respText r) \<noteq> []")
  case True
  then show ?thesis
    by (simp add: responseArrived_ok debounceDelete_def resolve_def cleanCache_def)
next
  case False
  have "tokenCounter (responseArrived c r w) = tokenCounter w"
    by (simp add: responseArrived_bad[OF False] debounceDelete_def resolve_def)
  with False show ?thesis
    by (simp only: if_False)
qed

lemma tokenCounter_respond:
  "tokenCounter (respond cid r w) =
     (case find (\<lambda>c. callId c = cid) (calls w) of
        None \<Rightarrow> tokenCounter w
      | Some c \<Rightarrow>
          if success r \<and> trim (respText r) \<noteq> []
          then tokenCounter (countTokens r w) else tokenCounter w)"
  by (simp add: respond_def tokenCounter_responseArrived countTokens_def
        split: option.splits)

text \<open>
  Claim C7, as amended.  The token-usage sink is invoked exactly once, with the response's
  input and output token counts, for every backend response that is successful, whose text
  is not blank, and whose two token counts are both present and not zero.  It is not invoked
  for any other backend response, and no other event invokes it: in particular no request
  does, whether it is answered from the cache or not.
\<close>

theorem token_usage_accounting:
  "(find (\<lambda>c. callId c = cid) (calls w) = Some c \<and> success r \<and> trim (respText r) \<noteq> []
      \<and> respInputTokens r = Some i \<and> respOutputTokens r = Some out \<and> i \<noteq> 0 \<and> out \<noteq> 0 \<longrightarrow>
      tokenCounter (respond cid r w) = addTokens i out (tokenCounter w)
      \<and> requestCount (stats (tokenCounter (respond cid r w)))
          = js_add (requestCount (stats (tokenCounter w))) 1)
   \<and> (\<not> (success r' \<and> trim (respText r') \<noteq> []
          \<and> (\<exists>i out. respInputTokens r' = Some i \<and> respOutputTokens r' = Some out
                \<and> i \<noteq> 0 \<and> out \<noteq> 0)) \<longrightarrow>
        tokenCounter (respond cid' r' w') = tokenCounter w')
   \<and> ((\<forall>cid r. ev \<noteq> Respond cid r) \<longrightarrow> tokenCounter (step v ev) = tokenCounter v)"
proof (intro conjI impI)
  assume h: "find (\<lambda>c. callId c = cid) (calls w) = Some c \<and> success r \<and> trim (respText r) \<noteq> []
      \<and> respInputTokens r = Some i \<and> respOutputTokens r = Some out \<and> i \<noteq> 0 \<and> out \<noteq> 0"
  then show a: "tokenCounter (respond cid r w) = addTokens i out (tokenCounter w)"
    by (simp add: tokenCounter_respond countTokens_def)
  show "requestCount (stats (tokenCounter (respond cid r w)))
          = js_add (requestCount (stats (tokenCounter w))) 1"
    unfolding a by (simp add: addTokens_def saveStats_def)
next
  assume "\<not> (success r' \<and> trim (respText r') \<noteq> []
          \<and> (\<exists>i out. respInputTokens r' = Some i \<and> respOutputTokens r' = Some out
                \<and> i \<noteq> 0 \<and> out \<noteq> 0))"
  then show "tokenCounter (respond cid' r' w') = tokenCounter w'"
    by (auto simp add: tokenCounter_respond countTokens_def split: option.splits)
next
  assume "\<forall>cid r. ev \<noteq> Respond cid r"
  then show "tokenCounter (step v ev) = tokenCounter v"
    by (rule tokenCounter_step)
qed

text \<open>
  The claim C7 as stated fails: the backend answers a request successfully, with a text that
  resolves the promise, and reports no usage; the token-usage sink is not invoked.
\<close>

theorem token_usage_counterexample:
  "success answer_without_usage
   \<and> promises (run (start defaultConfig)
        [Request scenario_doc at_total 0, Tick 500, Fire 0, Respond 0 answer_without_usage]) 0
       = Some (Resolved ['' = a + b''])
   \<and> stats (tokenCounter (run (start defaultConfig)
        [Request scenario_doc at_total 0, Tick 500, Fire 0, Respond 0 answer_without_usage]))
       = zero_stats"
proof -
  have "run (start defaultConfig)
          ([Request scenario_doc at_total 0] @ [Tick 500, Fire 0]
           @ [Respond 0 answer_without_usage])
        = run (run (run (start defaultConfig) [Request scenario_doc at_total 0])
                 [Tick 500, Fire 0]) [Respond 0 answer_without_usage]"
    by (simp only: run_append)
  also have "\<dots> = respond 0 answer_without_usage issued"
    by (simp only: start_scheduled scheduled_issued) (simp only: run_Cons run_Nil step.simps)
  finally have a:
    "run (start defaultConfig)
       [Request scenario_doc at_total 0, Tick 500, Fire 0, Respond 0 answer_without_usage]
     = respond 0 answer_without_usage issued"
    by simp
  have f: "find (\<lambda>c. callId c = 0) (calls issued) = Some call_total"
    by (simp add: issued_def call_total_def)
  have s: "success answer_without_usage" "respText answer_without_usage = '' = a + b''"
    by (simp_all add: answer_without_usage_def)
  have p: "promises (respond 0 answer_without_usage issued) 0 = Some (Resolved ['' = a + b''])"
    using promise_after_response[of call_total answer_without_usage]
    by (simp add: respond_found[OF f] s answer_text) (simp add: call_total_def)
  have t: "stats (tokenCounter (respond 0 answer_without_usage issued)) = zero_stats"
    by (simp add: tokenCounter_respond f countTokens_def)
       (simp add: answer_without_usage_def issued_def)
  show ?thesis
    unfolding a by (intro conjI s p t)
qed

theorem token_usage_accounting_witness:
  "tokenCounter (respond 0 answer issued) = addTokens 12 5 (tokenCounter issued)
   \<and> requestCount (stats (tokenCounter (respond 0 answer issued))) = 1
   \<and> tokenCounter (respond 0 answer_without_usage issued) = tokenCounter issued
   \<and> tokenCounter (step cached (Request scenario_doc at_total 1)) = tokenCounter cached"
proof -
  have h1: "find (\<lambda>c. callId c = 0) (calls issued) = Some call_total \<and> success answer
      \<and> trim (respText answer) \<noteq> []
      \<and> respInputTokens answer = Some 12 \<and> respOutputTokens answer = Some 5
      \<and> (12::int) \<noteq> 0 \<and> (5::int) \<noteq> 0"
    by (simp add: issued_def call_total_def answer_text) (simp add: answer_def)
  have h2: "\<not> (success answer_without_usage \<and> trim (respText answer_without_usage) \<noteq> []
          \<and> (\<exists>i out. respInputTokens answer_without_usage = Some i
                \<and> respOutputTokens answer_without_usage = Some out \<and> i \<noteq> 0 \<and> out \<noteq> 0))"
    by (simp add: answer_without_usage_def)
  have h3: "\<forall>cid r. Request scenario_doc at_total 1 \<noteq> Respond cid r"
    by simp
  note a = token_usage_accounting[where cid = 0 and w = issued and c = call_total and r = answer
      and i = 12 and out = 5 and r' = answer_without_usage and cid' = 0 and w' = issued
      and ev = "Request scenario_doc at_total 1" and v = cached]
  note a1 = a[THEN conjunct1, THEN mp, OF h1]
  note a2 = a[THEN conjunct2, THEN conjunct1, THEN mp, OF h2]
  note a3 = a[THEN conjunct2, THEN conjunct2, THEN mp, OF h3]
  have z: "requestCount (stats (tokenCounter issued)) = 0"
    by (simp add: issued_def zero_stats_def)
  note 1 = a1[THEN conjunct1]
  from a1[THEN conjunct2] z
  have 2: "requestCount (stats (tokenCounter (respond 0 answer issued))) = 1"
    by (simp add: js_add_exact exact_range_def)
  from 1 2 a2 a3 show ?thesis by blast
qed

subsection \<open>Settings that the provider does not read\<close>

lemma cache_switch_trace:
  "let w = run (start (defaultConfig\<lparr>cacheEnabled := False\<rparr>))
             [Request scenario_doc at_total 0, Tick 500, Fire 0, Respond 0 answer];
       w' = step w (Request scenario_doc at_total 1)
   in cacheEnabled (config w) = False \<and> cache w key_total = Some entry_total
      \<and> promises w' 1 = Some (Resolved ['' = a + b''])
      \<and> callsFor key_total w' = [request_total] \<and> timers w' = []"
  by code_simp

text \<open>
  Claim C3 holds of the documented setting and fails on the code: with \<open>cacheEnabled\<close> set to
  false, a request is made and answered by the backend, and the answer is written to the cache;
  a second request for the same key is then served from the cache, without a timer and
  without a second backend call.
\<close>

theorem cache_switch_ignored:
  "cacheEnabled (config (run (start (defaultConfig\<lparr>cacheEnabled := False\<rparr>))
       [Request scenario_doc at_total 0, Tick 500, Fire 0, Respond 0 answer])) = False
   \<and> cache (run (start (defaultConfig\<lparr>cacheEnabled := False\<rparr>))
       [Request scenario_doc at_total 0, Tick 500, Fire 0, Respond 0 answer]) key_total
      = Some entry_total
   \<and> promises (step (run (start (defaultConfig\<lparr>cacheEnabled := False\<rparr>))
       [Request scenario_doc at_total 0, Tick 500, Fire 0, Respond 0 answer])
         (Request scenario_doc at_total 1)) 1 = Some (Resolved ['' = a + b''])
   \<and> callsFor key_total (step (run (start (defaultConfig\<lparr>cacheEnabled := False\<rparr>))
       [Request scenario_doc at_total 0, Tick 500, Fire 0, Respond 0 answer])
         (Request scenario_doc at_total 1)) = [request_total]
   \<and> timers (step (run (start (defaultConfig\<lparr>cacheEnabled := False\<rparr>))
       [Request scenario_doc at_total 0, Tick 500, Fire 0, Respond 0 answer])
         (Request scenario_doc at_total 1)) = []"
  by (rule cache_switch_trace[unfolded Let_def])

lemma debounce_delay_trace:
  "let w = run (start (defaultConfig\<lparr>delay := 1000\<rparr>)) [Request scenario_doc at_total 0];
       w' = run w [Tick 500, Fire 0]
   in delay (config w) = 1000
      \<and> validateConfig \<lparr>maxTokens_opt = None, delay_opt = Some 1000\<rparr> = (True, [])
      \<and> now w = 0 \<and> map due (timers w) = [500]
      \<and> now w' = 500 \<and> callsFor key_total w' = [request_total]"
  by code_simp

text \<open>
  Claim C4 holds of the documented setting and fails on the code: with \<open>delay\<close> set to 1000,
  a value that \<^verbatim>\<open>validateConfig\<close> accepts, a request made at time 0 sets its timer for time
  500, and the timer fires and issues the backend call at time 500.
\<close>

theorem debounce_delay_ignored:
  "delay (config (run (start (defaultConfig\<lparr>delay := 1000\<rparr>))
       [Request scenario_doc at_total 0])) = 1000
   \<and> validateConfig \<lparr>maxTokens_opt = None, delay_opt = Some 1000\<rparr> = (True, [])
   \<and> now (run (start (defaultConfig\<lparr>delay := 1000\<rparr>)) [Request scenario_doc at_total 0]) = 0
   \<and> map due (timers (run (start (defaultConfig\<lparr>delay := 1000\<rparr>))
       [Request scenario_doc at_total 0])) = [500]
   \<and> now (run (run (start (defaultConfig\<lparr>delay := 1000\<rparr>))
       [Request scenario_doc at_total 0]) [Tick 500, Fire 0]) = 500
   \<and> callsFor key_total (run (run (start (defaultConfig\<lparr>delay := 1000\<rparr>))
       [Request scenario_doc at_total 0]) [Tick 500, Fire 0]) = [request_total]"
  by (rule debounce_delay_trace[unfolded Let_def])

subsection \<open>Settlement of the promises\<close>












subsection \<open>Debouncing\<close>

lemma liveDocument_frame:
  "documents w' = documents w \<Longrightarrow> liveDocument w' doc = liveDocument w doc"
  by (simp add: liveDocument_def)

lemma request_miss:
  assumes "enabled (config w)" "tok \<notin> cancelled w" "buildCacheKey doc pos = Inr K"
    "cacheLookup w K = None"
  shows "timers (provideCompletionItems doc pos tok w) =
           (case map_of (debounceMap w) K of
              Some old \<Rightarrow> filter (\<lambda>t. timerId t \<noteq> old) (timers w)
            | None \<Rightarrow> timers w)
           @ [\<lparr>timerId = nextId w, due = now w + 500,
               timerJob = \<lparr>jobKey = K, jobDoc = doc, jobPos = pos, jobToken = tok\<rparr>\<rparr>]"
    and "debounceMap (provideCompletionItems doc pos tok w) = AList.update K (nextId w) (debounceMap w)"
    and "nextId (provideCompletionItems doc pos tok w) = Suc (nextId w)"
    and "backendLog (provideCompletionItems doc pos tok w) = backendLog w"
    and "cache (provideCompletionItems doc pos tok w) = cache w"
    and "now (provideCompletionItems doc pos tok w) = now w"
    and "cancelled (provideCompletionItems doc pos tok w) = cancelled w"
    and "config (provideCompletionItems doc pos tok w) = config w"
  using assms(1,2)
  by (simp_all add: provideCompletionItems_def Let_def resolve_def
        getCompletionSuggestions_miss[OF assms(3,4)] split: option.splits outcome.splits)

lemma cacheLookup_later:
  assumes "cacheLookup w K = None" "cache w' = cache w" "now w \<le> now w'"
  shows "cacheLookup w' K = None"
  using assms by (auto simp add: cacheLookup_def split: option.splits if_splits)

lemma find_the_one:
  assumes "x \<in> set xs" "P x" "\<forall>y \<in> set xs. P y \<longrightarrow> y = x"
  shows "find P xs = Some x"
  using assms
proof (induction xs)
  case Nil
  then show ?case by simp
next
  case (Cons a xs)
  show ?case
  proof (cases "P a")
    case True
    with Cons.prems(3) have "a = x" by simp
    with True show ?thesis by simp
  next
    case False
    with Cons.prems(1,2) have "x \<in> set xs" by auto
    moreover from Cons.prems(3) have "\<forall>y \<in> set xs. P y \<longrightarrow> y = x" by simp
    ultimately have "find P xs = Some x" using Cons.IH Cons.prems(2) by blast
    with False show ?thesis by simp
  qed
qed

lemma timerCallback_frame:
  "timers (timerCallback p j w) = timers w"
  "backendLog (timerCallback p j w) =
     backendLog w @
       (if jobToken j \<in> cancelled w then []
        else case buildCompletionRequest (liveDocument w (jobDoc j)) (jobPos j) of
               Inl e \<Rightarrow> []
             | Inr req \<Rightarrow> if trim (prompt req) = [] then [] else [(jobKey j, req)])"
  by (simp_all add: timerCallback_def resolve_def debounceDelete_def split: sum.splits)

lemma tidy_facts:
  assumes "tidy K w"
  shows "\<And>t. t \<in> set (timers w) \<Longrightarrow> timerId t < nextId w"
    and "\<And>t k. t \<in> set (timers w) \<Longrightarrow> jobKey (timerJob t) = K
           \<Longrightarrow> (map_of (debounceMap w) k = Some (timerId t)) = (k = K)"
    and "\<And>k i. map_of (debounceMap w) k = Some i \<Longrightarrow> i < nextId w"
  using assms unfolding tidy_def by blast+

lemma tidyI:
  assumes "\<And>t. t \<in> set (timers w) \<Longrightarrow> timerId t < nextId w"
    and "\<And>t k. t \<in> set (timers w) \<Longrightarrow> jobKey (timerJob t) = K
           \<Longrightarrow> (map_of (debounceMap w) k = Some (timerId t)) = (k = K)"
    and "\<And>k i. map_of (debounceMap w) k = Some i \<Longrightarrow> i < nextId w"
  shows "tidy K w"
  unfolding tidy_def using assms by blast

text \<open>Timers are taken away, entries of the debounce table for other keys are deleted.\<close>

lemma tidy_shrink:
  assumes "tidy K w" and "set (timers w') \<subseteq> set (timers w)" and "nextId w \<le> nextId w'"
    and "\<And>k i. map_of (debounceMap w') k = Some i \<Longrightarrow> map_of (debounceMap w) k = Some i"
    and "map_of (debounceMap w') K = map_of (debounceMap w) K"
  shows "tidy K w'"
proof (rule tidyI)
  fix t assume "t \<in> set (timers w')"
  with assms(2) have "t \<in> set (timers w)" by blast
  with tidy_facts(1)[OF assms(1)] assms(3) show "timerId t < nextId w'" by fastforce
next
  fix t k assume "t \<in> set (timers w')" and key: "jobKey (timerJob t) = K"
  with assms(2) have t: "t \<in> set (timers w)" by blast
  note reg = tidy_facts(2)[OF assms(1) t key]
  show "(map_of (debounceMap w') k = Some (timerId t)) = (k = K)"
  proof
    assume "map_of (debounceMap w') k = Some (timerId t)"
    then have "map_of (debounceMap w) k = Some (timerId t)" by (rule assms(4))
    with reg show "k = K" by simp
  next
    assume "k = K"
    with reg[of K] assms(5) show "map_of (debounceMap w') k = Some (timerId t)" by simp
  qed
next
  fix k i assume "map_of (debounceMap w') k = Some i"
  then have "map_of (debounceMap w) k = Some i" by (rule assms(4))
  with tidy_facts(3)[OF assms(1)] assms(3) show "i < nextId w'" by fastforce
qed

lemma tidy_frame:
  assumes "tidy K w" "timers w' = timers w" "debounceMap w' = debounceMap w"
    "nextId w \<le> nextId w'"
  shows "tidy K w'"
  using assms(1) by (rule tidy_shrink) (simp_all add: assms)

lemma tidy_delete:
  assumes "tidy K w" "set (timers w') \<subseteq> set (timers w)" "nextId w' = nextId w"
    "debounceMap w' = AList.delete k0 (debounceMap w)" "k0 \<noteq> K"
  shows "tidy K w'"
  using assms(1,2)
  by (rule tidy_shrink) (use assms(3,4,5) in \<open>auto simp add: delete_conv' split: if_splits\<close>)

lemma timersFor_frame: "timers w' = timers w \<Longrightarrow> timersFor K w' = timersFor K w"
  by (simp add: timersFor_def)

lemma callsFor_frame: "backendLog w' = backendLog w \<Longrightarrow> callsFor K w' = callsFor K w"
  by (simp add: callsFor_def)

text \<open>A request that sets no timer: it is refused, or its line does not exist, or it is
  answered from the cache.\<close>

lemma request_no_timer:
  assumes "tok \<in> cancelled w \<or> (\<exists>e. buildCacheKey doc pos = Inl e)
           \<or> (\<exists>K' c. buildCacheKey doc pos = Inr K' \<and> cacheLookup w K' = Some c)"
  shows "timers (provideCompletionItems doc pos tok w) = timers w"
    and "debounceMap (provideCompletionItems doc pos tok w) = debounceMap w"
    and "nextId (provideCompletionItems doc pos tok w) = Suc (nextId w)"
    and "backendLog (provideCompletionItems doc pos tok w) = backendLog w"
    and "cache (provideCompletionItems doc pos tok w) = cache w"
    and "now (provideCompletionItems doc pos tok w) = now w"
    and "config (provideCompletionItems doc pos tok w) = config w"
  using assms
  by (auto simp add: provideCompletionItems_def getCompletionSuggestions_def resolve_def
        cacheLookup_def Let_def split: option.splits outcome.splits if_splits)

text \<open>A request that sets a timer, for the key \<open>K\<close> or for another key.\<close>

lemma tidy_request:
  assumes "tidy K w" "enabled (config w)" "tok \<notin> cancelled w" "buildCacheKey doc pos = Inr K'"
    "cacheLookup w K' = None"
  shows "tidy K (provideCompletionItems doc pos tok w)"
    and "K' = K \<Longrightarrow> timersFor K (provideCompletionItems doc pos tok w) =
           [\<lparr>timerId = nextId w, due = now w + 500,
             timerJob = \<lparr>jobKey = K, jobDoc = doc, jobPos = pos, jobToken = tok\<rparr>\<rparr>]"
    and "K' \<noteq> K \<Longrightarrow> timersFor K (provideCompletionItems doc pos tok w) = timersFor K w"
proof -
  note f = request_miss[OF assms(2-5)]
  note old = tidy_facts(1)[OF assms(1)] and reg = tidy_facts(2)[OF assms(1)]
    and ent = tidy_facts(3)[OF assms(1)]
  let ?rest = "case map_of (debounceMap w) K' of
                 Some old \<Rightarrow> filter (\<lambda>t. timerId t \<noteq> old) (timers w)
               | None \<Rightarrow> timers w"
  let ?T = "\<lparr>timerId = nextId w, due = now w + 500,
             timerJob = \<lparr>jobKey = K', jobDoc = doc, jobPos = pos, jobToken = tok\<rparr>\<rparr>"
  have sub: "set ?rest \<subseteq> set (timers w)"
    by (auto split: option.splits)
  have none: "filter (\<lambda>t. jobKey (timerJob t) = K) ?rest = []" if "K' = K"
  proof (cases "map_of (debounceMap w) K'")
    case None
    then show ?thesis using reg[of _ K] that by (auto simp add: filter_empty_conv)
  next
    case (Some old)
    then show ?thesis using reg[of _ K] that by (auto simp add: filter_empty_conv)
  qed
  have same: "filter (\<lambda>t. jobKey (timerJob t) = K) ?rest = timersFor K w" if "K' \<noteq> K"
  proof (cases "map_of (debounceMap w) K'")
    case None
    then show ?thesis by (simp add: timersFor_def)
  next
    case (Some old)
    have "filter (\<lambda>t. jobKey (timerJob t) = K) (filter (\<lambda>t. timerId t \<noteq> old) (timers w))
          = filter (\<lambda>t. jobKey (timerJob t) = K) (timers w)"
      unfolding filter_filter
    proof (rule filter_cong[OF refl])
      fix t assume t: "t \<in> set (timers w)"
      show "(timerId t \<noteq> old \<and> jobKey (timerJob t) = K) = (jobKey (timerJob t) = K)"
      proof (cases "jobKey (timerJob t) = K")
        case True
        from reg[OF t True, of K'] Some that have "timerId t \<noteq> old" by auto
        with True show ?thesis by simp
      next
        case False
        then show ?thesis by simp
      qed
    qed
    with Some show ?thesis by (simp add: timersFor_def)
  qed
  show "timersFor K (provideCompletionItems doc pos tok w) =
           [\<lparr>timerId = nextId w, due = now w + 500,
             timerJob = \<lparr>jobKey = K, jobDoc = doc, jobPos = pos, jobToken = tok\<rparr>\<rparr>]"
    if "K' = K"
    using none[OF that] that by (simp add: timersFor_def f(1))
  show "timersFor K (provideCompletionItems doc pos tok w) = timersFor K w" if "K' \<noteq> K"
    using same[OF that] that by (simp add: timersFor_def[of K "provideCompletionItems _ _ _ _"] f(1))
  show "tidy K (provideCompletionItems doc pos tok w)"
  proof (rule tidyI)
    fix t assume "t \<in> set (timers (provideCompletionItems doc pos tok w))"
    then have "t \<in> set (timers w) \<or> t = ?T" using sub by (auto simp add: f(1))
    then show "timerId t < nextId (provideCompletionItems doc pos tok w)"
      using old by (auto simp add: f(3) less_Suc_eq)
  next
    fix t k
    assume "t \<in> set (timers (provideCompletionItems doc pos tok w))"
      and key: "jobKey (timerJob t) = K"
    then consider (a) "t \<in> set ?rest" | (b) "t = ?T" by (auto simp add: f(1))
    then show "(map_of (debounceMap (provideCompletionItems doc pos tok w)) k = Some (timerId t))
               = (k = K)"
    proof cases
      case a
      then have t: "t \<in> set (timers w)" using sub by blast
      have other: "K' \<noteq> K"
      proof
        assume "K' = K"
        from none[OF this] a key show False by (auto simp add: filter_empty_conv)
      qed
      from old[OF t] have "timerId t \<noteq> nextId w" by simp
      with reg[OF t key, of k] other show ?thesis
        by (auto simp add: f(2) update_conv')
    next
      case b
      with key have same_key: "K' = K" by simp
      have "map_of (debounceMap w) k \<noteq> Some (nextId w)"
      proof
        assume "map_of (debounceMap w) k = Some (nextId w)"
        from ent[OF this] show False by simp
      qed
      with b same_key show ?thesis
        by (auto simp add: f(2) update_conv')
    qed
  next
    fix k i
    assume "map_of (debounceMap (provideCompletionItems doc pos tok w)) k = Some i"
    then have "i = nextId w \<or> map_of (debounceMap w) k = Some i"
      by (auto simp add: f(2) update_conv' split: if_splits)
    then show "i < nextId (provideCompletionItems doc pos tok w)"
      using ent by (auto simp add: f(3) less_Suc_eq)
  qed
qed


subsection \<open>Events that leave the executions for a key alone\<close>

lemma timerCallback_fields:
  "timers (timerCallback p j w) = timers w"
  "nextId (timerCallback p j w) = nextId w"
  "cache (timerCallback p j w) = cache w"
  "now (timerCallback p j w) = now w"
  "config (timerCallback p j w) = config w"
  "debounceMap (timerCallback p j w) = debounceMap w
   \<or> debounceMap (timerCallback p j w) = AList.delete (jobKey j) (debounceMap w)"
  "jobKey j \<noteq> K \<Longrightarrow> callsFor K (timerCallback p j w) = callsFor K w"
  by (simp_all add: timerCallback_def resolve_def debounceDelete_def callsFor_def
        split: sum.splits)

lemma fire_spares:
  assumes "tidy K w" and "cacheLookup w K = None"
    and "\<forall>t \<in> set (timers w). timerId t = tid \<longrightarrow> jobKey (timerJob t) \<noteq> K"
  shows "tidy K (fire tid w)" and "cacheLookup (fire tid w) K = None"
    and "config (fire tid w) = config w" and "callsFor K (fire tid w) = callsFor K w"
    and "timersFor K (fire tid w) = timersFor K w" and "nextId (fire tid w) = nextId w"
    and "set (timers (fire tid w)) \<subseteq> set (timers w)"
proof -
  let ?rem = "w\<lparr>timers := filter (\<lambda>t. timerId t \<noteq> tid) (timers w)\<rparr>"
  have kept: "filter (\<lambda>t. timerId t \<noteq> tid \<and> jobKey (timerJob t) = K) (timers w)
              = filter (\<lambda>t. jobKey (timerJob t) = K) (timers w)"
    using assms(3) by (auto intro: filter_cong)
  have all: "tidy K (fire tid w) \<and> cacheLookup (fire tid w) K = None
      \<and> config (fire tid w) = config w \<and> callsFor K (fire tid w) = callsFor K w
      \<and> timersFor K (fire tid w) = timersFor K w \<and> nextId (fire tid w) = nextId w
      \<and> set (timers (fire tid w)) \<subseteq> set (timers w)"
  proof (cases "find (\<lambda>t. timerId t = tid) (timers w)")
    case None
    then have "fire tid w = w" by (simp add: fire_def)
    with assms(1,2) show ?thesis by simp
  next
    case (Some t)
    then have t: "t \<in> set (timers w)" "timerId t = tid"
      by (auto simp add: find_Some_iff)
    with assms(3) have other: "jobKey (timerJob t) \<noteq> K" by blast
    show ?thesis
    proof (cases "now w < due t")
      case True
      with Some have "fire tid w = w" by (simp add: fire_def)
      with assms(1,2) show ?thesis by simp
    next
      case False
      with Some have fire: "fire tid w = timerCallback tid (timerJob t) ?rem"
        by (simp add: fire_def)
      note c = timerCallback_fields[where p = tid and j = "timerJob t" and w = ?rem]
      have sub: "set (timers (fire tid w)) \<subseteq> set (timers w)"
        by (auto simp add: fire c(1))
      have "tidy K (fire tid w)"
      proof -
        from c(6) consider
          (same) "debounceMap (fire tid w) = debounceMap w"
          | (gone) "debounceMap (fire tid w) = AList.delete (jobKey (timerJob t)) (debounceMap w)"
          by (auto simp add: fire)
        then show ?thesis
        proof cases
          case same
          from assms(1) sub show ?thesis
            by (rule tidy_shrink) (simp_all add: same, simp_all add: fire c(2))
        next
          case gone
          from assms(1) sub _ gone other show ?thesis
            by (rule tidy_delete) (simp add: fire c(2))
        qed
      qed
      moreover have "cacheLookup (fire tid w) K = None"
        by (rule cacheLookup_later[OF assms(2)]) (simp_all add: fire c)
      moreover have "callsFor K (fire tid w) = callsFor K w"
        unfolding fire c(7)[OF other] by (simp add: callsFor_def)
      moreover have "timersFor K (fire tid w) = timersFor K w"
        by (simp add: timersFor_def fire c(1) kept)
      ultimately show ?thesis
        using sub by (simp add: fire c)
    qed
  qed
  from all show "tidy K (fire tid w)" and "cacheLookup (fire tid w) K = None"
    and "config (fire tid w) = config w" and "callsFor K (fire tid w) = callsFor K w"
    and "timersFor K (fire tid w) = timersFor K w" and "nextId (fire tid w) = nextId w"
    and "set (timers (fire tid w)) \<subseteq> set (timers w)"
    by blast+
qed

lemma responseArrived_fields:
  "timers (responseArrived c r w) = timers w"
  "nextId (responseArrived c r w) = nextId w"
  "backendLog (responseArrived c r w) = backendLog w"
  "config (responseArrived c r w) = config w"
  "now (responseArrived c r w) = now w"
  "debounceMap (responseArrived c r w) = AList.delete (jobKey (callJob c)) (debounceMap w)"
  by (simp_all add: responseArrived_def debounceDelete_def resolve_def cleanCache_def
        countTokens_frame Let_def)

lemma responseArrived_lookup:
  assumes "jobKey (callJob c) \<noteq> K" "cacheLookup w K = None"
  shows "cacheLookup (responseArrived c r w) K = None"
proof (cases "success r \<and> trim (respText r) \<noteq> []")
  case True
  then have ok: "success r" "trim (respText r) \<noteq> []" by simp_all
  from assms show ?thesis
    by (auto simp add: cacheLookup_def cache_after_write[OF ok] responseArrived_fields
          CACHE_DURATION_def split: option.splits if_splits)
next
  case False
  show ?thesis
    by (rule cacheLookup_later[OF assms(2)])
       (simp_all add: responseArrived_bad[OF False] debounceDelete_def resolve_def)
qed

lemma respond_spares:
  assumes "tidy K w" and "cacheLookup w K = None"
    and "\<forall>c \<in> set (calls w). callId c = cid \<longrightarrow> jobKey (callJob c) \<noteq> K"
  shows "tidy K (respond cid r w)" and "cacheLookup (respond cid r w) K = None"
    and "config (respond cid r w) = config w" and "backendLog (respond cid r w) = backendLog w"
    and "timers (respond cid r w) = timers w" and "nextId (respond cid r w) = nextId w"
proof -
  have all: "tidy K (respond cid r w) \<and> cacheLookup (respond cid r w) K = None
      \<and> config (respond cid r w) = config w \<and> backendLog (respond cid r w) = backendLog w
      \<and> timers (respond cid r w) = timers w \<and> nextId (respond cid r w) = nextId w"
  proof (cases "find (\<lambda>c. callId c = cid) (calls w)")
    case None
    then have "respond cid r w = w" by (simp add: respond_def)
    with assms(1,2) show ?thesis by simp
  next
    case (Some c)
    then have "c \<in> set (calls w)" "callId c = cid"
      by (auto simp add: find_Some_iff)
    with assms(3) have other: "jobKey (callJob c) \<noteq> K" by blast
    let ?rem = "w\<lparr>calls := filter (\<lambda>c. callId c \<noteq> cid) (calls w)\<rparr>"
    note r = respond_found[OF Some, of r]
    note f = responseArrived_fields[where c = c and r = r and w = ?rem]
    have "cacheLookup ?rem K = None"
      by (rule cacheLookup_later[OF assms(2)]) simp_all
    then have "cacheLookup (respond cid r w) K = None"
      unfolding r by (rule responseArrived_lookup[OF other])
    moreover have "tidy K (respond cid r w)"
      using assms(1) by (rule tidy_delete[where ?k0.0 = "jobKey (callJob c)"])
                        (simp_all add: r f other)
    ultimately show ?thesis
      by (simp add: r f)
  qed
  from all show "tidy K (respond cid r w)" and "cacheLookup (respond cid r w) K = None"
    and "config (respond cid r w) = config w" and "backendLog (respond cid r w) = backendLog w"
    and "timers (respond cid r w) = timers w" and "nextId (respond cid r w) = nextId w"
    by blast+
qed

lemma throw_spares:
  assumes "tidy K w" and "cacheLookup w K = None"
    and "\<forall>c \<in> set (calls w). callId c = cid \<longrightarrow> jobKey (callJob c) \<noteq> K"
  shows "tidy K (backendThrows cid w)" and "cacheLookup (backendThrows cid w) K = None"
    and "config (backendThrows cid w) = config w"
    and "backendLog (backendThrows cid w) = backendLog w"
    and "timers (backendThrows cid w) = timers w" and "nextId (backendThrows cid w) = nextId w"
proof -
  have all: "tidy K (backendThrows cid w) \<and> cacheLookup (backendThrows cid w) K = None
      \<and> config (backendThrows cid w) = config w
      \<and> backendLog (backendThrows cid w) = backendLog w
      \<and> timers (backendThrows cid w) = timers w \<and> nextId (backendThrows cid w) = nextId w"
  proof (cases "find (\<lambda>c. callId c = cid) (calls w)")
    case None
    then have "backendThrows cid w = w" by (simp add: backendThrows_def)
    with assms(1,2) show ?thesis by simp
  next
    case (Some c)
    then have "c \<in> set (calls w)" "callId c = cid"
      by (auto simp add: find_Some_iff)
    with assms(3) have other: "jobKey (callJob c) \<noteq> K" by blast
    have t: "backendThrows cid w =
               debounceDelete (jobKey (callJob c))
                 (resolve cid [] (w\<lparr>calls := filter (\<lambda>c. callId c \<noteq> cid) (calls w)\<rparr>))"
      using Some by (simp add: backendThrows_def)
    have "cacheLookup (backendThrows cid w) K = None"
      by (rule cacheLookup_later[OF assms(2)])
         (simp_all add: t debounceDelete_def resolve_def)
    moreover have "tidy K (backendThrows cid w)"
      using assms(1) by (rule tidy_delete[where ?k0.0 = "jobKey (callJob c)"])
                        (simp_all add: t debounceDelete_def resolve_def other)
    ultimately show ?thesis
      by (simp add: t debounceDelete_def resolve_def)
  qed
  from all show "tidy K (backendThrows cid w)" and "cacheLookup (backendThrows cid w) K = None"
    and "config (backendThrows cid w) = config w"
    and "backendLog (backendThrows cid w) = backendLog w"
    and "timers (backendThrows cid w) = timers w" and "nextId (backendThrows cid w) = nextId w"
    by blast+
qed


text \<open>What such an event keeps: the timers for the key in order, no live cache entry for the
  key, the feature enabled, and the backend calls made for the key; and, unless it is a request
  for the key, the timers that are set for it.  A timer that it sets has the next number.\<close>

lemma window_step:
  assumes "tidy K w" and "cacheLookup w K = None" and "enabled (config w)" and "spares K w ev"
  shows "tidy K (step w ev) \<and> cacheLookup (step w ev) K = None \<and> enabled (config (step w ev))
         \<and> callsFor K (step w ev) = callsFor K w
         \<and> (\<not> requestFor K ev \<longrightarrow> timersFor K (step w ev) = timersFor K w)
         \<and> nextId w \<le> nextId (step w ev)
         \<and> (\<forall>t \<in> set (timers (step w ev)). t \<in> set (timers w) \<or> timerId t = nextId w)"
proof (cases ev)
  case (Request doc pos tok)
  let ?u = "w\<lparr>documents := (documents w)(fsPath doc \<mapsto> doc)\<rparr>"
  have "tidy K ?u"
    by (rule tidy_frame[OF assms(1)]) simp_all
  moreover have "cacheLookup ?u K = None"
    by (rule cacheLookup_later[OF assms(2)]) simp_all
  moreover have "enabled (config ?u)"
    using assms(3) by simp
  ultimately have u: "tidy K ?u" "cacheLookup ?u K = None" "enabled (config ?u)"
    by blast+
  have s: "step w ev = provideCompletionItems doc pos tok ?u"
    by (simp add: Request)
  have fr: "timersFor K ?u = timersFor K w" "callsFor K ?u = callsFor K w"
    by (simp_all add: timersFor_def callsFor_def)
  show ?thesis
  proof (cases "tok \<in> cancelled ?u \<or> (\<exists>e. buildCacheKey doc pos = Inl e)
           \<or> (\<exists>K' c. buildCacheKey doc pos = Inr K' \<and> cacheLookup ?u K' = Some c)")
    case True
    note n = request_no_timer[OF True]
    have "tidy K (step w ev)"
      unfolding s by (rule tidy_frame[OF u(1)]) (simp_all add: n)
    moreover have "cacheLookup (step w ev) K = None"
      unfolding s by (rule cacheLookup_later[OF u(2)]) (simp_all add: n)
    moreover have "timersFor K (step w ev) = timersFor K w"
      unfolding s using fr(1) by (simp add: timersFor_def n)
    moreover have "callsFor K (step w ev) = callsFor K w"
      unfolding s using fr(2) by (simp add: callsFor_def n)
    ultimately show ?thesis
      using u(3) by (simp add: s n)
  next
    case False
    then have c: "tok \<notin> cancelled ?u" by blast
    from False obtain K' where key: "buildCacheKey doc pos = Inr K'"
      by (cases "buildCacheKey doc pos") auto
    with False have miss: "cacheLookup ?u K' = None"
      by (cases "cacheLookup ?u K'") auto
    note f = request_miss[OF u(3) c key miss]
    note t = tidy_request[OF u(1) u(3) c key miss]
    have "cacheLookup (step w ev) K = None"
      unfolding s by (rule cacheLookup_later[OF u(2)]) (simp_all add: f)
    moreover have "timersFor K (step w ev) = timersFor K w" if "\<not> requestFor K ev"
    proof -
      from that key have "K' \<noteq> K" by (auto simp add: Request)
      from t(3)[OF this] fr(1) show ?thesis by (simp add: s)
    qed
    moreover have "callsFor K (step w ev) = callsFor K w"
      unfolding s using fr(2) by (simp add: callsFor_def f)
    moreover have "\<forall>t \<in> set (timers (step w ev)). t \<in> set (timers w) \<or> timerId t = nextId w"
      unfolding s f(1) by (auto split: option.splits)
    ultimately show ?thesis
      using t(1) u(3) by (simp add: s f)
  qed
next
  case (Edit doc)
  have "tidy K (w\<lparr>documents := (documents w)(fsPath doc \<mapsto> doc)\<rparr>)"
    by (rule tidy_frame[OF assms(1)]) simp_all
  moreover have "cacheLookup (w\<lparr>documents := (documents w)(fsPath doc \<mapsto> doc)\<rparr>) K = None"
    by (rule cacheLookup_later[OF assms(2)]) simp_all
  ultimately show ?thesis
    using assms(3) by (simp add: Edit timersFor_def callsFor_def)
next
  case (Fire tid)
  with assms(4)
  have "\<forall>t \<in> set (timers w). timerId t = tid \<longrightarrow> jobKey (timerJob t) \<noteq> K"
    by simp
  note f = fire_spares[OF assms(1,2) this]
  from f assms(3) show ?thesis
    by (auto simp add: Fire)
next
  case (Respond cid r)
  with assms(4)
  have "\<forall>c \<in> set (calls w). callId c = cid \<longrightarrow> jobKey (callJob c) \<noteq> K"
    by simp
  note f = respond_spares[OF assms(1,2) this, of r]
  from f assms(3) show ?thesis
    by (simp add: Respond timersFor_def callsFor_def)
next
  case (Throw cid)
  with assms(4)
  have "\<forall>c \<in> set (calls w). callId c = cid \<longrightarrow> jobKey (callJob c) \<noteq> K"
    by simp
  note f = throw_spares[OF assms(1,2) this]
  from f assms(3) show ?thesis
    by (simp add: Throw timersFor_def callsFor_def)
next
  case (Cancel tok)
  have "tidy K (w\<lparr>cancelled := insert tok (cancelled w)\<rparr>)"
    by (rule tidy_frame[OF assms(1)]) simp_all
  moreover have "cacheLookup (w\<lparr>cancelled := insert tok (cancelled w)\<rparr>) K = None"
    by (rule cacheLookup_later[OF assms(2)]) simp_all
  ultimately show ?thesis
    using assms(3) by (simp add: Cancel timersFor_def callsFor_def)
next
  case (Tick ms)
  have "tidy K (w\<lparr>now := now w + int ms\<rparr>)"
    by (rule tidy_frame[OF assms(1)]) simp_all
  moreover have "cacheLookup (w\<lparr>now := now w + int ms\<rparr>) K = None"
    by (rule cacheLookup_later[OF assms(2)]) simp_all
  ultimately show ?thesis
    using assms(3) by (simp add: Tick timersFor_def callsFor_def)
next
  case (Configure c)
  have "tidy K (w\<lparr>config := c\<rparr>)"
    by (rule tidy_frame[OF assms(1)]) simp_all
  moreover have "cacheLookup (w\<lparr>config := c\<rparr>) K = None"
    by (rule cacheLookup_later[OF assms(2)]) simp_all
  ultimately show ?thesis
    using assms(4) by (simp add: Configure timersFor_def callsFor_def)
next
  case ClearCache
  with assms(4) show ?thesis by simp
qed

lemma window_run:
  assumes "tidy K w" and "cacheLookup w K = None" and "enabled (config w)"
    and "undisturbed K w evs"
  shows "tidy K (run w evs) \<and> cacheLookup (run w evs) K = None \<and> enabled (config (run w evs))
         \<and> callsFor K (run w evs) = callsFor K w
         \<and> ((\<forall>ev \<in> set evs. \<not> requestFor K ev) \<longrightarrow> timersFor K (run w evs) = timersFor K w)
         \<and> nextId w \<le> nextId (run w evs)
         \<and> (\<forall>t \<in> set (timers (run w evs)). t \<in> set (timers w) \<or> nextId w \<le> timerId t)"
  using assms
proof (induction evs arbitrary: w)
  case Nil
  then show ?case by (simp add: run_Nil)
next
  case (Cons ev evs)
  from Cons.prems(4) have q: "spares K w ev" and qs: "undisturbed K (step w ev) evs"
    by simp_all
  note s = window_step[OF Cons.prems(1-3) q]
  from s have a: "tidy K (step w ev)" and b: "cacheLookup (step w ev) K = None"
    and c: "enabled (config (step w ev))" and d: "callsFor K (step w ev) = callsFor K w"
    and e: "\<not> requestFor K ev \<Longrightarrow> timersFor K (step w ev) = timersFor K w"
    and f: "nextId w \<le> nextId (step w ev)"
    and g: "\<And>t. t \<in> set (timers (step w ev)) \<Longrightarrow> t \<in> set (timers w) \<or> timerId t = nextId w"
    by blast+
  note ih = Cons.IH[OF a b c qs]
  from ih have a': "tidy K (run (step w ev) evs)"
    and b': "cacheLookup (run (step w ev) evs) K = None"
    and c': "enabled (config (run (step w ev) evs))"
    and d': "callsFor K (run (step w ev) evs) = callsFor K (step w ev)"
    and e': "(\<forall>ev \<in> set evs. \<not> requestFor K ev)
             \<Longrightarrow> timersFor K (run (step w ev) evs) = timersFor K (step w ev)"
    and f': "nextId (step w ev) \<le> nextId (run (step w ev) evs)"
    and g': "\<And>t. t \<in> set (timers (run (step w ev) evs))
               \<Longrightarrow> t \<in> set (timers (step w ev)) \<or> nextId (step w ev) \<le> timerId t"
    by blast+
  have "timersFor K (run (step w ev) evs) = timersFor K w"
    if "\<forall>x \<in> set (ev # evs). \<not> requestFor K x"
    using e e' that by simp
  moreover have "t \<in> set (timers w) \<or> nextId w \<le> timerId t"
    if "t \<in> set (timers (run (step w ev) evs))" for t
    using g'[OF that] g[of t] f by auto
  ultimately show ?case
    using a' b' c' d' d f f' unfolding run_Cons by (intro conjI impI ballI) simp_all
qed

lemma undisturbed_append:
  "undisturbed K w (xs @ ys) = (undisturbed K w xs \<and> undisturbed K (run w xs) ys)"
  by (induction xs arbitrary: w) (simp_all add: run_Nil run_Cons)

text \<open>
  What the debounce table achieves.  Let the provider be in a state in which every execution
  that is scheduled for the key \<open>K\<close> is the one that the debounce table holds for \<open>K\<close> (as when
  none is scheduled), with no live cache entry for \<open>K\<close> and the feature enabled.  Let requests
  for \<open>K\<close> arrive, the last of them with a signal that is not set on entry, among events
  that leave the executions scheduled for \<open>K\<close> alone: requests for other keys, the timers of
  other keys that fire and the answers to their backend calls, edits, time that passes and
  signals that are set.  Then exactly one execution is scheduled for \<open>K\<close>, that of the last
  request, half a second after its arrival: every earlier one has been cancelled before it
  started; and no backend call has been made for \<open>K\<close>.  When that execution fires, no
  execution is left for \<open>K\<close>, and one backend call is made for \<open>K\<close>, built from the document
  of the last request, as it is when the execution fires, and the cursor position of the last
  request; unless the signal of the last request is set by then or the prompt is blank, when
  none is made.
\<close>

lemma coalescing_in_window:
  assumes "tidy K w" and "cacheLookup w K = None" and "enabled (config w)"
    and "undisturbed K w (evs @ Request doc pos tok # rest)"
    and "buildCacheKey doc pos = Inr K"
    and "tok \<notin> cancelled (run w evs)"
    and "\<forall>ev \<in> set rest. \<not> requestFor K ev"
    and "buildCompletionRequest
           (liveDocument (run w (evs @ Request doc pos tok # rest)) doc) pos = Inr req"
  shows "timersFor K (run w (evs @ Request doc pos tok # rest)) =
           [\<lparr>timerId = nextId (run w evs), due = now (run w evs) + 500,
             timerJob = \<lparr>jobKey = K, jobDoc = doc, jobPos = pos, jobToken = tok\<rparr>\<rparr>]
         \<and> callsFor K (run w (evs @ Request doc pos tok # rest)) = callsFor K w
         \<and> (now (run w evs) + 500 \<le> now (run w (evs @ Request doc pos tok # rest)) \<longrightarrow>
             timersFor K (fire (nextId (run w evs)) (run w (evs @ Request doc pos tok # rest)))
               = []
             \<and> callsFor K (fire (nextId (run w evs)) (run w (evs @ Request doc pos tok # rest)))
               = callsFor K w @
                   (if tok \<in> cancelled (run w (evs @ Request doc pos tok # rest))
                       \<or> trim (prompt req) = []
                    then [] else [req]))"
proof -
  let ?first = "run w evs"
  let ?u = "?first\<lparr>documents := (documents ?first)(fsPath doc \<mapsto> doc)\<rparr>"
  let ?v = "provideCompletionItems doc pos tok ?u"
  let ?w' = "run w (evs @ Request doc pos tok # rest)"
  let ?p = "nextId ?first"
  let ?T = "\<lparr>timerId = ?p, due = now ?first + 500,
             timerJob = \<lparr>jobKey = K, jobDoc = doc, jobPos = pos, jobToken = tok\<rparr>\<rparr>"
  have w': "?w' = run ?v rest"
    by (simp add: run_append run_Cons)
  from assms(4) have q1: "undisturbed K w evs" and q2: "undisturbed K ?v rest"
    by (simp_all add: undisturbed_append)
  from window_run[OF assms(1-3) q1]
  have first: "tidy K ?first" "cacheLookup ?first K = None" "enabled (config ?first)"
    "callsFor K ?first = callsFor K w"
    by blast+
  have "tidy K ?u"
    by (rule tidy_frame[OF first(1)]) simp_all
  moreover have "cacheLookup ?u K = None"
    by (rule cacheLookup_later[OF first(2)]) simp_all
  moreover have "enabled (config ?u)" "tok \<notin> cancelled ?u"
    using first(3) assms(6) by simp_all
  ultimately have u: "tidy K ?u" "cacheLookup ?u K = None" "enabled (config ?u)"
    "tok \<notin> cancelled ?u"
    by blast+
  note f = request_miss[OF u(3) u(4) assms(5) u(2), simplified]
  note t = tidy_request[OF u(1) u(3) u(4) assms(5) u(2), simplified]
  have v: "tidy K ?v" "cacheLookup ?v K = None" "enabled (config ?v)"
    "timersFor K ?v = [?T]" "callsFor K ?v = callsFor K w" "nextId ?v = Suc ?p"
  proof -
    show "tidy K ?v" by (rule t(1))
    show "cacheLookup ?v K = None"
      by (rule cacheLookup_later[OF u(2)]) (simp_all add: f)
    show "enabled (config ?v)" using u(3) by (simp add: f)
    show "timersFor K ?v = [?T]" using t(2) by simp
    show "callsFor K ?v = callsFor K w" using first(4) by (simp add: callsFor_def f)
    show "nextId ?v = Suc ?p" by (simp add: f)
  qed
  have before: "timerId t < ?p" if "t \<in> set (timers ?v)" "t \<noteq> ?T" for t
  proof -
    from that have "t \<in> set (timers ?first)"
      by (auto simp add: f(1) split: option.splits)
    with tidy_facts(1)[OF first(1)] show ?thesis by blast
  qed
  from window_run[OF v(1-3) q2]
  have r: "callsFor K ?w' = callsFor K ?v"
    "(\<forall>ev \<in> set rest. \<not> requestFor K ev) \<longrightarrow> timersFor K ?w' = timersFor K ?v"
    "\<forall>t \<in> set (timers ?w'). t \<in> set (timers ?v) \<or> nextId ?v \<le> timerId t"
    unfolding w' by blast+
  have one: "timersFor K ?w' = [?T]"
    using r(2) assms(7) v(4) by simp
  have log: "callsFor K ?w' = callsFor K w"
    using r(1) v(5) by simp
  have mem: "?T \<in> set (timers ?w')"
  proof -
    have "?T \<in> set (timersFor K ?w')" by (simp add: one)
    then show ?thesis by (simp add: timersFor_def)
  qed
  have uniq: "\<forall>t \<in> set (timers ?w'). timerId t = ?p \<longrightarrow> t = ?T"
  proof (intro ballI impI)
    fix t assume a: "t \<in> set (timers ?w')" and b: "timerId t = ?p"
    from r(3) a have "t \<in> set (timers ?v) \<or> nextId ?v \<le> timerId t" by blast
    with b v(6) have "t \<in> set (timers ?v)" by simp
    with before[of t] b show "t = ?T" by auto
  qed
  have found: "find (\<lambda>t. timerId t = ?p) (timers ?w') = Some ?T"
    by (rule find_the_one[OF mem _ uniq]) simp
  have fired: "timersFor K (fire ?p ?w') = []
      \<and> callsFor K (fire ?p ?w') =
          callsFor K w @ (if tok \<in> cancelled ?w' \<or> trim (prompt req) = [] then [] else [req])"
    if late: "now ?first + 500 \<le> now ?w'"
  proof -
    have due: "due ?T \<le> now ?w'" using late by simp
    let ?rem = "?w'\<lparr>timers := filter (\<lambda>t. timerId t \<noteq> ?p) (timers ?w')\<rparr>"
    have fire: "fire ?p ?w' = timerCallback ?p (timerJob ?T) ?rem"
      by (rule fire_found[OF found due])
    have live: "liveDocument ?rem doc = liveDocument ?w' doc"
      by (rule liveDocument_frame) simp
    have "filter (\<lambda>t. jobKey (timerJob t) = K)
            (filter (\<lambda>t. timerId t \<noteq> ?p) (timers ?w'))
          = filter (\<lambda>t. timerId t \<noteq> ?p) (timersFor K ?w')"
      by (auto simp add: timersFor_def intro: filter_cong)
    then have gone: "timersFor K (fire ?p ?w') = []"
      by (simp add: fire timerCallback_frame timersFor_def[of K "timerCallback _ _ _"]
            timersFor_def[of K ?rem] one)
    have calls: "callsFor K (fire ?p ?w') =
               callsFor K w @ (if tok \<in> cancelled ?w' \<or> trim (prompt req) = [] then [] else [req])"
      unfolding fire callsFor_def timerCallback_frame
      using log by (simp add: callsFor_def live assms(8))
    from gone calls show ?thesis by blast
  qed
  from one log fired show ?thesis by blast
qed

text \<open>An instance, with a request for another key, its timer and its answer in the window,
  and an edit of the document after the last request.\<close>

lemma window_trace:
  "let u = run (start defaultConfig) window_events;
       w' = run u (Request scenario_doc at_total 2 # after_events)
   in nextId u = 2 \<and> now u = 200 \<and> 2 \<notin> cancelled u \<and> 2 \<notin> cancelled w' \<and> now w' = 700
      \<and> buildCompletionRequest (liveDocument w' scenario_doc) at_total = Inr request_edited
      \<and> trim (prompt request_edited) \<noteq> []"
  by code_simp

lemma window_undisturbed:
  "undisturbed key_total (start defaultConfig)
     (window_events @ Request scenario_doc at_total 2 # after_events)"
  by code_simp

lemma coalescing_in_window_example:
  "timersFor key_total
     (run (start defaultConfig) (window_events @ Request scenario_doc at_total 2 # after_events))
     = [\<lparr>timerId = 2, due = 700,
         timerJob = \<lparr>jobKey = key_total, jobDoc = scenario_doc, jobPos = at_total,
                     jobToken = 2\<rparr>\<rparr>]
   \<and> callsFor key_total
       (run (start defaultConfig) (window_events @ Request scenario_doc at_total 2 # after_events))
     = []
   \<and> timersFor key_total (fire 2
       (run (start defaultConfig) (window_events @ Request scenario_doc at_total 2 # after_events)))
     = []
   \<and> callsFor key_total (fire 2
       (run (start defaultConfig) (window_events @ Request scenario_doc at_total 2 # after_events)))
     = [request_edited]"
proof -
  let ?w = "start defaultConfig"
  let ?w' = "run ?w (window_events @ Request scenario_doc at_total 2 # after_events)"
  have w': "?w' = run (run ?w window_events) (Request scenario_doc at_total 2 # after_events)"
    by (simp add: run_append)
  note v = window_trace[unfolded Let_def, folded w']
  have h1: "tidy key_total ?w" by (simp add: tidy_def start_def)
  have h2: "cacheLookup ?w key_total = None" by (simp add: cacheLookup_def start_def)
  have h3: "enabled (config ?w)" by (simp add: start_def defaultConfig_def)
  have h6: "2 \<notin> cancelled (run ?w window_events)" using v by blast
  have h7: "\<forall>ev \<in> set after_events. \<not> requestFor key_total ev"
    by (simp add: after_events_def)
  have h8: "buildCompletionRequest (liveDocument ?w' scenario_doc) at_total = Inr request_edited"
    using v by blast
  have h9: "now (run ?w window_events) + 500 \<le> now ?w'" using v by simp
  note a = coalescing_in_window[OF h1 h2 h3 window_undisturbed key_total h6 h7 h8]
  have e: "callsFor key_total ?w = []" by (simp add: callsFor_def start_def)
  from v have n: "nextId (run ?w window_events) = 2" "now (run ?w window_events) = 200"
    "2 \<notin> cancelled ?w'" "trim (prompt request_edited) \<noteq> []"
    by blast+
  from a[THEN conjunct1] n have 1: "timersFor key_total ?w'
     = [\<lparr>timerId = 2, due = 700,
         timerJob = \<lparr>jobKey = key_total, jobDoc = scenario_doc, jobPos = at_total,
                     jobToken = 2\<rparr>\<rparr>]"
    by simp
  from a[THEN conjunct2, THEN conjunct1] e have 2: "callsFor key_total ?w' = []"
    by simp
  note a3 = a[THEN conjunct2, THEN conjunct2, THEN mp, OF h9]
  from a3[THEN conjunct1] n(1) have 3: "timersFor key_total (fire 2 ?w') = []"
    by simp
  from a3[THEN conjunct2] n(1,3,4) e
  have 4: "callsFor key_total (fire 2 ?w') = [request_edited]"
    by simp
  from 1 2 3 4 show ?thesis by blast
qed

lemma stale_trace:
  "let v = run (start defaultConfig) answered_events;
       w = run v next_request_events;
       w' = run w due_events
   in (now v = 700 \<and> map (\<lambda>t. (timerId t, due t)) (timersFor key_total v) = [(1, 1100)]
       \<and> debounceMap v = [] \<and> callsFor key_total v = [request_total])
      \<and> (now w = 800
         \<and> map (\<lambda>t. (timerId t, due t)) (timersFor key_total w) = [(1, 1100), (2, 1300)]
         \<and> callsFor key_total w = [request_total])
      \<and> (now w' = 1300 \<and> timersFor key_total w' = []
         \<and> callsFor key_total w' = [request_total, request_total, request_total])"
  by code_simp

text \<open>
  Claim C1.  For every cache key \<open>K\<close>, if requests for \<open>K\<close> arrive with each one arriving before
  the previously scheduled delayed execution for \<open>K\<close> fires, then exactly one backend call is
  made for \<open>K\<close>, built from the document and cursor position of the last of them, and every
  earlier scheduled execution for \<open>K\<close> is cancelled before it starts.

  The code does not do this in the run of \<open>answered_events\<close>, \<open>next_request_events\<close> and
  \<open>due_events\<close>.  When the backend's answer to an earlier call for \<open>K\<close> arrives at time 700,
  an execution is scheduled for \<open>K\<close>, that of the request made at 600, due at 1100; the
  \<^verbatim>\<open>finally\<close> block of the answered call deletes the entry of \<open>K\<close> in the debounce table,
  which is the entry of that execution.  The next request for \<open>K\<close> arrives at 800, before that
  execution fires; it finds no entry and cancels nothing.  Both executions stay scheduled,
  both fire when they are due, and each calls the backend: two backend calls are made for
  the two requests, after the one that had been made before them.
\<close>

theorem debounce_entry_deleted_by_earlier_answer:
  "(now (run (start defaultConfig) answered_events) = 700
    \<and> map (\<lambda>t. (timerId t, due t)) (timersFor key_total (run (start defaultConfig) answered_events))
        = [(1, 1100)]
    \<and> debounceMap (run (start defaultConfig) answered_events) = []
    \<and> callsFor key_total (run (start defaultConfig) answered_events) = [request_total])
   \<and> (now (run (run (start defaultConfig) answered_events)
             next_request_events) = 800
      \<and> map (\<lambda>t. (timerId t, due t))
          (timersFor key_total (run (run (start defaultConfig) answered_events)
             next_request_events))
        = [(1, 1100), (2, 1300)]
      \<and> callsFor key_total (run (run (start defaultConfig) answered_events)
             next_request_events) = [request_total])
   \<and> (now (run (run (run (start defaultConfig) answered_events)
             next_request_events) due_events) = 1300
      \<and> timersFor key_total (run (run (run (start defaultConfig) answered_events)
             next_request_events) due_events) = []
      \<and> callsFor key_total (run (run (run (start defaultConfig) answered_events)
             next_request_events) due_events)
          = [request_total, request_total, request_total])"
  by (rule stale_trace[unfolded Let_def])

section \<open>Properties of the matcher\<close>















subsection \<open>Characters\<close>



lemma space_not_punctuation:
  assumes "js_space c"
  shows "c \<noteq> CHR ''=''" "c \<noteq> CHR ''(''" "c \<noteq> CHR ''a''" "c \<noteq> CHR ''f''"
  using assms by (auto simp add: js_space_def)






subsection \<open>The JavaScript function pattern\<close>










subsection \<open>The scope of a JavaScript function\<close>







end
